theory Spec2Isabelle
  imports Complex_Main
begin

section \<open>Data model\<close>

text \<open>
  The TypeScript declarations of the particle simulator. A JavaScript \<open>number\<close> is
  modelled as a \<^typ>\<open>real\<close>, and the engine first with exact arithmetic; the values NaN
  and the infinities have no counterpart, so division by zero is excluded by hypothesis
  wherever a statement depends on it. The rounding of the double-precision operations
  is modelled in a section of its own, for the loop bodies whose claims depend on it.
  The fields \<open>id\<close>, \<open>x\<close> and \<open>y\<close> of a particle are written \<open>p_id\<close>, \<open>p_x\<close> and
  \<open>p_y\<close>, since the short names are a HOL constant and the usual names of variables.
\<close>

datatype ColorPalette = fireworks | cyberpunk | ocean | inferno | monochrome | emerald

record Particle =
  p_id :: nat
  p_x :: real
  p_y :: real
  vx :: real
  vy :: real
  mass :: real
  radius :: real
  color :: string

record SimulationConfig =
  G :: real
  friction :: real
  particleCount :: real
  collisionElasticity :: real
  trailLength :: real
  showTrails :: bool
  paused :: bool
  mouseStrength :: real
  palette :: ColorPalette

text \<open>The private fields of the class \<open>PhysicsEngine\<close>.\<close>

record PhysicsEngine =
  particles :: "Particle list"
  config :: SimulationConfig
  width :: real
  height :: real

section \<open>The random source\<close>

text \<open>
  \<open>Math.random()\<close> reads a global generator. The model passes the generator along
  explicitly, as the sequence of the numbers it is going to return; one call takes the
  first number and leaves the rest.
\<close>

type_synonym rand = "nat \<Rightarrow> real"

definition random :: "rand \<Rightarrow> real \<times> rand" where
  "random r = (r 0, \<lambda>n. r (Suc n))"

section \<open>The colour assigner\<close>

text \<open>
  The decimal rendering of an integer, as a template literal prints an integral number.
\<close>

fun digits :: "nat \<Rightarrow> string" where
  "digits n =
     (if n < 10 then [char_of (48 + n)]
      else digits (n div 10) @ [char_of (48 + n mod 10)])"

declare digits.simps [simp del]

definition show_int :: "int \<Rightarrow> string" where
  "show_int i = (if i < 0 then ''-'' @ digits (nat (- i)) else digits (nat i))"

definition hsla :: "int \<Rightarrow> int \<Rightarrow> int \<Rightarrow> string" where
  "hsla hue saturation lightness =
     ''hsla('' @ show_int hue @ '', '' @ show_int saturation @ ''%, ''
       @ show_int lightness @ ''%, 1.0)''"

definition generateColor :: "ColorPalette \<Rightarrow> rand \<Rightarrow> string \<times> rand" where
  "generateColor pal r =
     (case pal of
        fireworks \<Rightarrow>
          (let (u, r1) = random r in (hsla \<lfloor>u * 360\<rfloor> 100 50, r1))
      | cyberpunk \<Rightarrow>
          (let (c, r1) = random r; (u, r2) = random r1
           in (hsla (if c > 0.5 then \<lfloor>u * 40\<rfloor> + 280 else \<lfloor>u * 40\<rfloor> + 180) 100 50, r2))
      | ocean \<Rightarrow>
          (let (u, r1) = random r in (hsla (\<lfloor>u * 60\<rfloor> + 170) 100 50, r1))
      | inferno \<Rightarrow>
          (let (u, r1) = random r in (hsla \<lfloor>u * 50\<rfloor> 100 50, r1))
      | emerald \<Rightarrow>
          (let (u, r1) = random r in (hsla (\<lfloor>u * 60\<rfloor> + 100) 100 50, r1))
      | monochrome \<Rightarrow>
          (let (u, r1) = random r in (hsla 0 0 (\<lfloor>u * 50\<rfloor> + 50), r1)))"

section \<open>The particle store\<close>

text \<open>
  One iteration of the loop of \<open>init\<close>: the mass is drawn first (two numbers), then the
  fields of the object literal in their order.
\<close>

definition new_particle :: "nat \<Rightarrow> PhysicsEngine \<Rightarrow> rand \<Rightarrow> Particle \<times> rand" where
  "new_particle i st r =
     (let (a, r1) = random r;
          (b, r2) = random r1;
          m = a * b * 25 + 2;
          (ux, r3) = random r2;
          (uy, r4) = random r3;
          (uvx, r5) = random r4;
          (uvy, r6) = random r5;
          (c, r7) = generateColor (palette (config st)) r6
      in (\<lparr>p_id = i,
           p_x = ux * width st,
           p_y = uy * height st,
           vx = (uvx - 0.5) * 2,
           vy = (uvy - 0.5) * 2,
           mass = m,
           radius = sqrt m * 0.5,
           color = c\<rparr>, r7))"

function init_loop :: "nat \<Rightarrow> PhysicsEngine \<Rightarrow> rand \<Rightarrow> PhysicsEngine \<times> rand" where
  "init_loop i st r =
     (if real i < particleCount (config st)
      then (case new_particle i st r of
              (p, r') \<Rightarrow> init_loop (Suc i) (st\<lparr>particles := particles st @ [p]\<rparr>) r')
      else (st, r))"
  by pat_completeness auto
termination
proof (relation "measure (\<lambda>(i, st, r). nat \<lceil>particleCount (config st)\<rceil> - i)")
  show "wf (measure (\<lambda>(i, st, r). nat \<lceil>particleCount (config st)\<rceil> - i))"
    by simp
next
  fix i :: nat and st :: PhysicsEngine and r :: rand and p r'
  assume lt: "real i < particleCount (config st)"
  have "int i < \<lceil>particleCount (config st)\<rceil>"
    using lt by (simp add: less_ceiling_iff)
  then have "i < nat \<lceil>particleCount (config st)\<rceil>"
    by simp
  then show "((Suc i, st\<lparr>particles := particles st @ [p]\<rparr>, r'), i, st, r)
      \<in> measure (\<lambda>(i, st, r). nat \<lceil>particleCount (config st)\<rceil> - i)"
    by simp
qed

declare init_loop.simps [simp del]

definition init :: "PhysicsEngine \<Rightarrow> rand \<Rightarrow> PhysicsEngine \<times> rand" where
  "init st r = init_loop 0 (st\<lparr>particles := []\<rparr>) r"

text \<open>The constructor stores its arguments and calls \<open>init\<close>.\<close>

definition constructor ::
  "SimulationConfig \<Rightarrow> real \<Rightarrow> real \<Rightarrow> rand \<Rightarrow> PhysicsEngine \<times> rand" where
  "constructor cfg w h r =
     init \<lparr>particles = [], config = cfg, width = w, height = h\<rparr> r"

text \<open>\<open>refreshColors\<close>: the loop over the particles, each one given a new colour.\<close>

fun recolor_loop :: "ColorPalette \<Rightarrow> Particle list \<Rightarrow> rand \<Rightarrow> Particle list \<times> rand" where
  "recolor_loop pal [] r = ([], r)"
| "recolor_loop pal (p # ps) r =
     (case generateColor pal r of
        (c, r') \<Rightarrow> (case recolor_loop pal ps r' of
                      (ps', r'') \<Rightarrow> (p\<lparr>color := c\<rparr> # ps', r'')))"

definition refreshColors :: "PhysicsEngine \<Rightarrow> rand \<Rightarrow> PhysicsEngine \<times> rand" where
  "refreshColors st r =
     (case recolor_loop (palette (config st)) (particles st) r of
        (ps', r') \<Rightarrow> (st\<lparr>particles := ps'\<rparr>, r'))"

definition setConfig :: "SimulationConfig \<Rightarrow> PhysicsEngine \<Rightarrow> rand \<Rightarrow> PhysicsEngine \<times> rand" where
  "setConfig cfg st r =
     (let prevCount = length (particles st);
          prevPalette = palette (config st);
          st' = st\<lparr>config := cfg\<rparr>
      in if real prevCount \<noteq> particleCount cfg then init st' r
         else if prevPalette \<noteq> palette cfg then refreshColors st' r
         else (st', r))"

definition updateDimensions :: "real \<Rightarrow> real \<Rightarrow> PhysicsEngine \<Rightarrow> PhysicsEngine" where
  "updateDimensions w h st = st\<lparr>width := w, height := h\<rparr>"

definition reset :: "PhysicsEngine \<Rightarrow> rand \<Rightarrow> PhysicsEngine \<times> rand" where
  "reset st r = init st r"

definition getParticles :: "PhysicsEngine \<Rightarrow> Particle list" where
  "getParticles st = particles st"

section \<open>One step of the sequential engine\<close>

definition softening :: real where
  "softening = 20"

text \<open>
  The body of the inner loop of \<open>step\<close> for \<open>i \<noteq> j\<close>: the two force components that the
  loop of \<open>p1\<close> adds for \<open>p2\<close>.
\<close>

definition pair_force :: "real \<Rightarrow> Particle \<Rightarrow> Particle \<Rightarrow> real \<times> real" where
  "pair_force g p1 p2 =
     (let dx = p_x p2 - p_x p1;
          dy = p_y p2 - p_y p1;
          distSq = dx * dx + dy * dy + softening;
          dist = sqrt distSq;
          force = (g * mass p1 * mass p2) / distSq
      in ((force * dx) / dist, (force * dy) / dist))"

text \<open>The inner loop: \<open>fx\<close> and \<open>fy\<close> start at 0 and \<open>j\<close> runs from 0 to \<open>n - 1\<close>.\<close>

definition accumulate :: "real \<Rightarrow> Particle list \<Rightarrow> nat \<Rightarrow> real \<times> real" where
  "accumulate g ps i =
     fold (\<lambda>j (fx, fy).
             if i = j then (fx, fy)
             else (case pair_force g (ps ! i) (ps ! j) of
                     (cx, cy) \<Rightarrow> (fx + cx, fy + cy)))
          [0..<length ps] (0, 0)"

text \<open>The body of the outer loop: particle \<open>i\<close> gets its new velocity in place.\<close>

definition accelerate :: "real \<Rightarrow> nat \<Rightarrow> Particle list \<Rightarrow> Particle list" where
  "accelerate g i ps =
     (let p1 = ps ! i;
          (fx, fy) = accumulate g ps i
      in ps[i := p1\<lparr>vx := vx p1 + fx / mass p1, vy := vy p1 + fy / mass p1\<rparr>])"

definition force_loop :: "real \<Rightarrow> Particle list \<Rightarrow> Particle list" where
  "force_loop g ps = fold (accelerate g) [0..<length ps] ps"

text \<open>
  The body of the second loop: friction, the move, and the bounce on each axis. The
  argument \<open>fr\<close> is the local \<open>friction\<close> of \<open>step\<close>, that is one minus the configured
  friction.
\<close>

definition bounce_x :: "real \<Rightarrow> real \<Rightarrow> Particle \<Rightarrow> Particle" where
  "bounce_x elasticity w p =
     (if p_x p < radius p
      then p\<lparr>p_x := radius p, vx := vx p * (- elasticity)\<rparr>
      else if p_x p > w - radius p
      then p\<lparr>p_x := w - radius p, vx := vx p * (- elasticity)\<rparr>
      else p)"

definition bounce_y :: "real \<Rightarrow> real \<Rightarrow> Particle \<Rightarrow> Particle" where
  "bounce_y elasticity h p =
     (if p_y p < radius p
      then p\<lparr>p_y := radius p, vy := vy p * (- elasticity)\<rparr>
      else if p_y p > h - radius p
      then p\<lparr>p_y := h - radius p, vy := vy p * (- elasticity)\<rparr>
      else p)"

definition move :: "real \<Rightarrow> real \<Rightarrow> real \<Rightarrow> real \<Rightarrow> Particle \<Rightarrow> Particle" where
  "move fr elasticity w h p =
     (let p = p\<lparr>vx := vx p * fr\<rparr>;
          p = p\<lparr>vy := vy p * fr\<rparr>;
          p = p\<lparr>p_x := p_x p + vx p\<rparr>;
          p = p\<lparr>p_y := p_y p + vy p\<rparr>
      in bounce_y elasticity h (bounce_x elasticity w p))"

definition step :: "PhysicsEngine \<Rightarrow> PhysicsEngine" where
  "step st =
     (if paused (config st) then st
      else
        (let g = G (config st);
             fr = 1 - friction (config st);
             elasticity = collisionElasticity (config st);
             ps = force_loop g (particles st)
         in st\<lparr>particles := map (move fr elasticity (width st) (height st)) ps\<rparr>))"

section \<open>The attractor\<close>

definition attract :: "real \<Rightarrow> real \<Rightarrow> real \<Rightarrow> Particle \<Rightarrow> Particle" where
  "attract ax ay strength p =
     (let dx = ax - p_x p;
          dy = ay - p_y p;
          distSq = dx * dx + dy * dy + 100;
          dist = sqrt distSq;
          force = (strength * mass p) / distSq
      in p\<lparr>vx := vx p + (force * dx) / dist / mass p,
           vy := vy p + (force * dy) / dist / mass p\<rparr>)"

definition applyAttractor :: "real \<Rightarrow> real \<Rightarrow> real \<Rightarrow> PhysicsEngine \<Rightarrow> PhysicsEngine" where
  "applyAttractor ax ay strength st =
     (if paused (config st) then st
      else st\<lparr>particles := map (attract ax ay strength) (particles st)\<rparr>)"

section \<open>The parallel engine\<close>

text \<open>
  \<open>webGpuEngine.ts\<close> holds the compute shader as WGSL source text and the host code
  that builds a pipeline from it. The records of the device buffer follow the layout
  that \<open>setupBuffers\<close> writes: position, velocity, mass, padding and an RGBA colour.
  Fields whose names the sequential engine has already are written with a suffix.
\<close>

type_synonym vec2 = "real \<times> real"

record GpuParticle =
  pos :: vec2
  vel :: vec2
  mass_g :: real
  padding :: real
  color_g :: "real \<times> real \<times> real \<times> real"

record WebGpuEngine =
  particleBuffer :: "GpuParticle list"
  config_g :: SimulationConfig
  width_g :: real
  height_g :: real

record Mouse =
  mouse_x :: real
  mouse_y :: real
  active :: bool

text \<open>
  The members that \<open>struct Particle\<close> of the compute shader declares (lines 5 to 11 of
  \<open>webGpuEngine.ts\<close>), and the member accesses that its entry point \<open>main\<close> makes on the
  values \<open>p\<close> and \<open>other\<close> of that type, each with its line.
\<close>

definition Particle_members :: "string list" where
  "Particle_members = [''pos'', ''vel'', ''mass'', ''padding'', ''color'']"

definition main_member_accesses :: "(nat \<times> string) list" where
  "main_member_accesses =
     [(41, ''pos''), (41, ''pos''), (43, ''mass''), (43, ''mass''), (48, ''pos''),
      (50, ''mass''), (54, ''mass''), (55, ''vel''), (58, ''vel''), (61, ''pos''),
      (61, ''vel''), (64, ''mass''), (65, ''pos''), (66, ''pos''), (67, ''vel''),
      (68, ''pos''), (69, ''pos''), (70, ''vel''), (73, ''pos''), (74, ''pos''),
      (75, ''vy''), (76, ''pos''), (77, ''pos''), (78, ''vy'')]"

text \<open>
  A WGSL module that accesses a member its struct does not declare is rejected:
  \<open>createShaderModule\<close> yields an invalid module, the pipeline that \<open>setupPipelines\<close>
  creates from it is invalid, and the device does not execute a command buffer that
  uses an invalid pipeline.
\<close>

definition undeclared_accesses :: "(nat \<times> string) list" where
  "undeclared_accesses =
     filter (\<lambda>(line, member). member \<notin> set Particle_members) main_member_accesses"

definition module_valid :: bool where
  "module_valid \<longleftrightarrow> undeclared_accesses = []"

text \<open>
  \<open>render\<close> writes sixteen floats as the parameter block, the time step 0.5 among them,
  and encodes the compute pass when the configuration is not paused. The argument
  \<open>device\<close> stands for what a valid compute pipeline stores into the particle buffer,
  given the parameter block and the buffer; the pass takes effect only if the module
  is valid.
\<close>

definition params_block :: "WebGpuEngine \<Rightarrow> Mouse \<Rightarrow> real list" where
  "params_block eng mouse =
     [G (config_g eng),
      friction (config_g eng),
      mouse_x mouse,
      mouse_y mouse,
      (if active mouse then mouseStrength (config_g eng) else 0),
      particleCount (config_g eng),
      width_g eng,
      height_g eng,
      0.5,
      collisionElasticity (config_g eng),
      0, 0, 0, 0, 0, 0]"

definition render ::
  "(real list \<Rightarrow> GpuParticle list \<Rightarrow> GpuParticle list) \<Rightarrow> WebGpuEngine \<Rightarrow> Mouse \<Rightarrow> WebGpuEngine" where
  "render device eng mouse =
     (if \<not> paused (config_g eng) \<and> module_valid
      then eng\<lparr>particleBuffer := device (params_block eng mouse) (particleBuffer eng)\<rparr>
      else eng)"

text \<open>\<open>setupBuffers\<close> fills a buffer of fixed capacity with random records.\<close>

definition hue2rgb :: "real \<Rightarrow> real \<Rightarrow> real \<Rightarrow> real" where
  "hue2rgb p q t0 =
     (let t = (if t0 < 0 then t0 + 1 else t0);
          t = (if t > 1 then t - 1 else t)
      in if t < 1 / 6 then p + (q - p) * 6 * t
         else if t < 1 / 2 then q
         else if t < 2 / 3 then p + (q - p) * (2 / 3 - t) * 6
         else p)"

definition hslToRgb :: "real \<Rightarrow> real \<Rightarrow> real \<Rightarrow> real \<times> real \<times> real \<times> real" where
  "hslToRgb h s l =
     (if s = 0 then (l, l, l, 1.0)
      else (let q = (if l < 0.5 then l * (1 + s) else l + s - l * s);
                p = 2 * l - q
            in (hue2rgb p q (h + 1 / 3), hue2rgb p q h, hue2rgb p q (h - 1 / 3), 1.0)))"

definition generateColor_g :: "ColorPalette \<Rightarrow> rand \<Rightarrow> (real \<times> real \<times> real \<times> real) \<times> rand" where
  "generateColor_g pal r =
     (case pal of
        fireworks \<Rightarrow>
          (let (u, r1) = random r in (hslToRgb (u * 360 / 360) (100 / 100) (50 / 100), r1))
      | cyberpunk \<Rightarrow>
          (let (c, r1) = random r; (u, r2) = random r1
           in (hslToRgb ((if c > 0.5 then u * 40 + 280 else u * 40 + 180) / 360)
                 (100 / 100) (50 / 100), r2))
      | ocean \<Rightarrow>
          (let (u, r1) = random r
           in (hslToRgb ((u * 60 + 170) / 360) (100 / 100) (50 / 100), r1))
      | inferno \<Rightarrow>
          (let (u, r1) = random r in (hslToRgb (u * 50 / 360) (100 / 100) (50 / 100), r1))
      | emerald \<Rightarrow>
          (let (u, r1) = random r
           in (hslToRgb ((u * 60 + 100) / 360) (100 / 100) (50 / 100), r1))
      | monochrome \<Rightarrow>
          (let (u, r1) = random r
           in (hslToRgb (0 / 360) (0 / 100) ((u * 50 + 50) / 100), r1)))"

definition initial_record :: "WebGpuEngine \<Rightarrow> rand \<Rightarrow> GpuParticle \<times> rand" where
  "initial_record eng r =
     (let (ux, r1) = random r;
          (uy, r2) = random r1;
          (uvx, r3) = random r2;
          (uvy, r4) = random r3;
          (a, r5) = random r4;
          (b, r6) = random r5;
          m = a * b * 25 + 2;
          (c, r7) = generateColor_g (palette (config_g eng)) r6
      in (\<lparr>pos = (ux * width_g eng, uy * height_g eng),
           vel = ((uvx - 0.5) * 2, (uvy - 0.5) * 2),
           mass_g = m,
           padding = 0,
           color_g = c\<rparr>, r7))"

definition setupBuffers :: "WebGpuEngine \<Rightarrow> rand \<Rightarrow> WebGpuEngine \<times> rand" where
  "setupBuffers eng r =
     (let capacity = 1000;
          (initialData, r') =
             fold (\<lambda>i (buf, s). case initial_record eng s of (p, s') \<Rightarrow> (buf @ [p], s'))
                  [0..<capacity] ([], r)
      in (eng\<lparr>particleBuffer := initialData\<rparr>, r'))"

section \<open>Double-precision rounding\<close>

text \<open>
  Every arithmetic operation of the code and \<open>Math.sqrt\<close> return the double nearest to
  the exact result, ties going to the even significand. \<open>double\<close> is that rounding for
  53 significant bits, with the double given as the real it denotes; overflow to
  infinity and the denormal range are left out.
\<close>

definition ties_even :: "real \<Rightarrow> int" where
  "ties_even q =
     (let f = \<lfloor>q\<rfloor>; d = q - of_int f
      in if d < 1 / 2 then f else if d > 1 / 2 then f + 1 else if even f then f else f + 1)"

definition double :: "real \<Rightarrow> real" where
  "double x =
     (if x = 0 then 0
      else (let u = 2 powi (\<lfloor>log 2 \<bar>x\<bar>\<rfloor> - 52)
            in of_int (ties_even (x / u)) * u))"

text \<open>
  The body of the inner loop of \<open>step\<close> and the body of the loop of \<open>applyAttractor\<close>
  once more, with every operation rounded by \<open>rnd\<close>, in the order in which JavaScript
  evaluates it. With the identity for \<open>rnd\<close> they are \<open>pair_force\<close> and \<open>attract\<close>.
  \<open>attractor_terms_r\<close> are the values that depend on the position only, \<open>pull_r\<close> the
  two terms that are added to the velocity.
\<close>

definition pair_force_r :: "(real \<Rightarrow> real) \<Rightarrow> real \<Rightarrow> Particle \<Rightarrow> Particle \<Rightarrow> real \<times> real" where
  "pair_force_r rnd g p1 p2 =
     (let dx = rnd (p_x p2 - p_x p1);
          dy = rnd (p_y p2 - p_y p1);
          distSq = rnd (rnd (rnd (dx * dx) + rnd (dy * dy)) + softening);
          dist = rnd (sqrt distSq);
          force = rnd (rnd (rnd (g * mass p1) * mass p2) / distSq)
      in (rnd (rnd (force * dx) / dist), rnd (rnd (force * dy) / dist)))"

definition attractor_terms_r ::
  "(real \<Rightarrow> real) \<Rightarrow> real \<Rightarrow> real \<Rightarrow> Particle \<Rightarrow> real \<times> real \<times> real \<times> real" where
  "attractor_terms_r rnd ax ay p =
     (let dx = rnd (ax - p_x p);
          dy = rnd (ay - p_y p);
          distSq = rnd (rnd (rnd (dx * dx) + rnd (dy * dy)) + 100);
          dist = rnd (sqrt distSq)
      in (dx, dy, distSq, dist))"

definition pull_r :: "(real \<Rightarrow> real) \<Rightarrow> real \<Rightarrow> real \<Rightarrow> real \<Rightarrow> Particle \<Rightarrow> real \<times> real" where
  "pull_r rnd ax ay strength p =
     (let (dx, dy, distSq, dist) = attractor_terms_r rnd ax ay p;
          force = rnd (rnd (strength * mass p) / distSq)
      in (rnd (rnd (rnd (force * dx) / dist) / mass p),
          rnd (rnd (rnd (force * dy) / dist) / mass p)))"

definition attract_r :: "(real \<Rightarrow> real) \<Rightarrow> real \<Rightarrow> real \<Rightarrow> real \<Rightarrow> Particle \<Rightarrow> Particle" where
  "attract_r rnd ax ay strength p =
     p\<lparr>vx := rnd (vx p + fst (pull_r rnd ax ay strength p)),
       vy := rnd (vy p + snd (pull_r rnd ax ay strength p))\<rparr>"

definition applyAttractor_r ::
  "(real \<Rightarrow> real) \<Rightarrow> real \<Rightarrow> real \<Rightarrow> real \<Rightarrow> PhysicsEngine \<Rightarrow> PhysicsEngine" where
  "applyAttractor_r rnd ax ay strength st =
     (if paused (config st) then st
      else st\<lparr>particles := map (attract_r rnd ax ay strength) (particles st)\<rparr>)"

section \<open>Notions used in the statements\<close>

text \<open>Particle \<open>i\<close> with the velocity that the outer loop of \<open>step\<close> gives it.\<close>

definition kicked :: "real \<Rightarrow> Particle list \<Rightarrow> nat \<Rightarrow> Particle" where
  "kicked g ps i =
     (ps ! i)\<lparr>vx := vx (ps ! i) + fst (accumulate g ps i) / mass (ps ! i),
              vy := vy (ps ! i) + snd (accumulate g ps i) / mass (ps ! i)\<rparr>"

text \<open>Everything a particle carries except its colour.\<close>

definition kinematics :: "Particle \<Rightarrow> nat \<times> real \<times> real \<times> real \<times> real \<times> real \<times> real" where
  "kinematics p = (p_id p, p_x p, p_y p, vx p, vy p, mass p, radius p)"

text \<open>A particle lies inside the walls of a domain of the given width and height.\<close>

definition inside :: "real \<Rightarrow> real \<Rightarrow> Particle \<Rightarrow> bool" where
  "inside w h p \<longleftrightarrow>
     radius p \<le> p_x p \<and> p_x p \<le> w - radius p \<and> radius p \<le> p_y p \<and> p_y p \<le> h - radius p"

section \<open>Sequences of calls\<close>

text \<open>
  The host calls \<open>applyAttractor\<close> and \<open>step\<close> once per frame, in any number and
  order; a run is the list of the calls made.
\<close>

datatype call = Step | ApplyAttractor real real real

fun run_call :: "call \<Rightarrow> PhysicsEngine \<Rightarrow> PhysicsEngine" where
  "run_call Step st = step st"
| "run_call (ApplyAttractor ax ay strength) st = applyAttractor ax ay strength st"

definition run_calls :: "call list \<Rightarrow> PhysicsEngine \<Rightarrow> PhysicsEngine" where
  "run_calls cs st = fold run_call cs st"

text \<open>The random source as it is left after \<open>k\<close> colours of one palette have been drawn.\<close>

definition after_colors :: "ColorPalette \<Rightarrow> nat \<Rightarrow> rand \<Rightarrow> rand" where
  "after_colors pal k r = ((\<lambda>s. snd (generateColor pal s)) ^^ k) r"

section \<open>Example inputs\<close>

text \<open>The configuration \<open>App\<close> starts with.\<close>

definition default_config :: SimulationConfig where
  "default_config =
     \<lparr>G = 1.2, friction = 0.005, particleCount = 200, collisionElasticity = 0.7,
      trailLength = 35, showTrails = True, paused = False, mouseStrength = 15000,
      palette = fireworks\<rparr>"

text \<open>A particle at rest with the radius \<open>init\<close> gives to its mass.\<close>

definition body :: "nat \<Rightarrow> real \<Rightarrow> real \<Rightarrow> real \<Rightarrow> Particle" where
  "body i m px py =
     \<lparr>p_id = i, p_x = px, p_y = py, vx = 0, vy = 0, mass = m, radius = sqrt m * 0.5,
      color = ''hsla(0, 100%, 50%, 1.0)''\<rparr>"

text \<open>
  An engine with two bodies of mass 10 and 20, the second displaced by \<open>(3, 4)\<close> from
  the first, in a domain of 800 by 600.
\<close>

definition two_bodies :: "SimulationConfig \<Rightarrow> PhysicsEngine" where
  "two_bodies cfg =
     \<lparr>particles = [body 0 10 100 100, body 1 20 103 104],
      config = cfg\<lparr>particleCount := 2\<rparr>, width = 800, height = 600\<rparr>"

definition halves :: rand where
  "halves = (\<lambda>n. 1 / 2)"

text \<open>Two bodies of mass 10 and 3 at rest at the same place.\<close>

definition twin_bodies :: PhysicsEngine where
  "twin_bodies =
     \<lparr>particles = [body 0 10 100 100, body 1 3 100 100],
      config = default_config\<lparr>particleCount := 2\<rparr>, width = 800, height = 600\<rparr>"

text \<open>One body at one unit left of the wall contact, moving left with speed 2.\<close>

definition lone_body :: "SimulationConfig \<Rightarrow> PhysicsEngine" where
  "lone_body cfg =
     \<lparr>particles = [(body 0 10 (sqrt 10 * 0.5 - 1) 100)\<lparr>vx := - 2\<rparr>],
      config = cfg\<lparr>particleCount := 1\<rparr>, width = 800, height = 600\<rparr>"

text \<open>
  Random numbers for which \<open>init\<close> makes one body of mass 10 at rest in the corner of
  the domain: the mass is \<open>0.8 * 0.4 * 25 + 2\<close>, the position and the hue are drawn as 0
  and the two velocity components as 0.5.
\<close>

definition corner_draws :: rand where
  "corner_draws n =
     (if n = 0 then 0.8 else if n = 1 then 0.4 else if n = 4 \<or> n = 5 then 0.5 else 0)"

definition corner_config :: "bool \<Rightarrow> SimulationConfig" where
  "corner_config p = default_config\<lparr>particleCount := 1, paused := p\<rparr>"

text \<open>
  The same two bodies as the first two records of a device buffer of 1000 records.
\<close>

definition gpu_body :: "real \<Rightarrow> real \<Rightarrow> real \<Rightarrow> GpuParticle" where
  "gpu_body m px py =
     \<lparr>pos = (px, py), vel = (0, 0), mass_g = m, padding = 0, color_g = (1, 0, 0, 1)\<rparr>"

definition gpu_two_bodies :: "SimulationConfig \<Rightarrow> WebGpuEngine" where
  "gpu_two_bodies cfg =
     \<lparr>particleBuffer =
        gpu_body 10 100 100 # gpu_body 20 103 104 # replicate 998 (gpu_body 2 400 300),
      config_g = cfg\<lparr>particleCount := 2\<rparr>, width_g = 800, height_g = 600\<rparr>"

section \<open>Double-precision arithmetic\<close>

lemma ties_even_unique:
  assumes "\<bar>q - of_int m\<bar> < 1 / 2"
  shows "ties_even q = m"
proof -
  have lo: "of_int m - 1 / 2 < q" and hi: "q < of_int m + 1 / 2"
    using assms by linarith+
  show ?thesis
  proof (cases "of_int m \<le> q")
    case True
    then have "\<lfloor>q\<rfloor> = m" using hi by (intro floor_unique) simp_all
    then show ?thesis using hi by (simp add: ties_even_def Let_def)
  next
    case False
    then have "\<lfloor>q\<rfloor> = m - 1" using lo by (intro floor_unique) simp_all
    then show ?thesis using lo False by (simp add: ties_even_def Let_def)
  qed
qed

lemma ties_even_half: "ties_even (of_int m + 1 / 2) = (if even m then m else m + 1)"
proof -
  have "\<lfloor>of_int m + (1 / 2 :: real)\<rfloor> = m"
    by (rule floor_unique) simp_all
  then show ?thesis by (simp add: ties_even_def Let_def)
qed

lemma ties_even_err: "\<bar>of_int (ties_even q) - q\<bar> \<le> 1 / 2"
proof -
  have "of_int \<lfloor>q\<rfloor> \<le> q" "q < of_int \<lfloor>q\<rfloor> + 1" by linarith+
  then show ?thesis
    by (auto simp: ties_even_def Let_def abs_le_iff)
qed

lemma ties_even_minus: "ties_even (- q) = - ties_even q"
proof (cases "q = of_int \<lfloor>q\<rfloor>")
  case True
  then obtain n where q: "q = of_int n" ..
  have "ties_even (of_int n) = n" "ties_even (- of_int n) = - n"
    by (rule ties_even_unique, simp)+
  then show ?thesis by (simp add: q)
next
  case False
  then have lt: "of_int \<lfloor>q\<rfloor> < q" by linarith
  have up: "q < of_int \<lfloor>q\<rfloor> + 1" by linarith
  have c: "of_int (- \<lfloor>q\<rfloor> - 1) = - of_int \<lfloor>q\<rfloor> - (1::real)" by simp
  have "of_int (- \<lfloor>q\<rfloor> - 1) \<le> - q" unfolding c using up by linarith
  moreover have "- q < of_int (- \<lfloor>q\<rfloor> - 1) + 1" unfolding c using lt by linarith
  ultimately have fl: "\<lfloor>- q\<rfloor> = - \<lfloor>q\<rfloor> - 1"
    by (rule floor_unique)
  show ?thesis
    using lt up by (auto simp: ties_even_def Let_def fl)
qed

text \<open>Rounding commutes with the sign.\<close>

lemma double_minus: "double (- x) = - double x"
  by (simp add: double_def Let_def ties_even_minus)

text \<open>
  The exponent of a number between \<open>2\<^sup>5\<^sup>2 * u\<close> and \<open>2\<^sup>5\<^sup>3 * u\<close>, for a power \<open>u\<close> of two.
\<close>

lemma exponent_eq:
  assumes u: "u = 2 powi k"
    and lo: "2 ^ 52 * u \<le> \<bar>x\<bar>" and hi: "\<bar>x\<bar> < 2 ^ 53 * u"
  shows "\<lfloor>log 2 \<bar>x\<bar>\<rfloor> = k + 52" and "x \<noteq> 0"
proof -
  have up: "0 < u" by (simp add: u)
  show x0: "x \<noteq> 0" using lo up by (auto simp: mult_le_0_iff)
  have ax: "0 < \<bar>x\<bar>" using x0 by simp
  have "2 powr real_of_int (k + 52) = 2 powi (k + 52)"
    by (rule powr_real_of_int') simp_all
  also have "\<dots> = 2 ^ 52 * u" by (simp add: u power_int_add)
  finally have p1: "2 powr real_of_int (k + 52) \<le> \<bar>x\<bar>" using lo by simp
  have "2 powr (real_of_int (k + 52) + 1) = 2 powr real_of_int (k + 53)"
    by (simp add: add.commute)
  also have "\<dots> = 2 powi (k + 53)"
    by (rule powr_real_of_int') simp_all
  also have "\<dots> = 2 ^ 53 * u" by (simp add: u power_int_add)
  finally have p2: "\<bar>x\<bar> < 2 powr (real_of_int (k + 52) + 1)" using hi by simp
  show "\<lfloor>log 2 \<bar>x\<bar>\<rfloor> = k + 52"
    using floor_log_eq_powr_iff [of "\<bar>x\<bar>" 2 "k + 52"] ax p1 p2 by simp
qed

text \<open>
  How a rounding is evaluated: the significand \<open>m\<close> is the integer nearest to \<open>x / u\<close>,
  or the even neighbour when \<open>x / u\<close> lies half way between two integers.
\<close>

lemma double_eq:
  assumes u: "u = 2 powi k"
    and lo: "2 ^ 52 * u \<le> \<bar>x\<bar>" and hi: "\<bar>x\<bar> < 2 ^ 53 * u"
    and below: "(of_int m - 1 / 2) * u < x" and above: "x < (of_int m + 1 / 2) * u"
  shows "double x = of_int m * u"
proof -
  have up: "0 < u" by (simp add: u)
  note e = exponent_eq [OF u lo hi]
  have "of_int m - 1 / 2 < x / u"
    using below up by (simp add: pos_less_divide_eq)
  moreover have "x / u < of_int m + 1 / 2"
    using above up by (simp add: pos_divide_less_eq)
  ultimately have "\<bar>x / u - of_int m\<bar> < 1 / 2"
    by linarith
  then have "ties_even (x / u) = m" by (rule ties_even_unique)
  then show ?thesis
    using e by (simp add: double_def Let_def u)
qed

lemma double_eq_half:
  assumes u: "u = 2 powi k"
    and lo: "2 ^ 52 * u \<le> \<bar>x\<bar>" and hi: "\<bar>x\<bar> < 2 ^ 53 * u"
    and half: "x = (of_int m + 1 / 2) * u"
  shows "double x = of_int (if even m then m else m + 1) * u"
proof -
  have up: "0 < u" by (simp add: u)
  note e = exponent_eq [OF u lo hi]
  have "x / u = of_int m + 1 / 2" using half up by simp
  then have "ties_even (x / u) = (if even m then m else m + 1)"
    by (simp only: ties_even_half)
  then show ?thesis
    using e by (simp add: double_def Let_def u)
qed

lemma double_sqrt_eq:
  assumes u: "u = 2 powi k" and m: "0 < m"
    and lo: "(2 ^ 52 * u)\<^sup>2 \<le> x" and hi: "x < (2 ^ 53 * u)\<^sup>2"
    and below: "((of_int m - 1 / 2) * u)\<^sup>2 < x" and above: "x < ((of_int m + 1 / 2) * u)\<^sup>2"
  shows "double (sqrt x) = of_int m * u"
proof -
  have up: "0 < u" by (simp add: u)
  have x: "0 \<le> x" using lo by (meson order_trans zero_le_power2)
  have "2 ^ 52 * u \<le> sqrt x"
    using lo by (intro real_le_rsqrt)
  moreover have "sqrt x < 2 ^ 53 * u"
    using hi up by (intro real_less_lsqrt) simp_all
  moreover have "(of_int m - 1 / 2) * u < sqrt x"
    using below by (intro real_less_rsqrt)
  moreover have "sqrt x < (of_int m + 1 / 2) * u"
    using above up m by (intro real_less_lsqrt) simp_all
  moreover have "\<bar>sqrt x\<bar> = sqrt x" using x by simp
  ultimately show ?thesis
    using double_eq [OF u, of "sqrt x" m] by simp
qed

text \<open>The relative error of one rounding is at most \<open>2\<^sup>-\<^sup>5\<^sup>3\<close>.\<close>

lemma double_rel_err: "\<bar>double x - x\<bar> \<le> \<bar>x\<bar> / 2 ^ 53"
proof (cases "x = 0")
  case True
  then show ?thesis by (simp add: double_def)
next
  case False
  define e where "e = \<lfloor>log 2 \<bar>x\<bar>\<rfloor>"
  define u :: real where "u = 2 powi (e - 52)"
  have up: "0 < u" by (simp add: u_def)
  have ax: "0 < \<bar>x\<bar>" using False by simp
  have "2 powr real_of_int e \<le> \<bar>x\<bar>"
    using floor_log_eq_powr_iff [of "\<bar>x\<bar>" 2 e] ax by (simp add: e_def)
  moreover have "2 powr real_of_int e = 2 powi e"
    by (rule powr_real_of_int') simp_all
  moreover have "(2::real) powi e = 2 ^ 52 * u"
    by (simp add: u_def power_int_diff)
  ultimately have lo: "2 ^ 52 * u \<le> \<bar>x\<bar>" by simp
  have d: "double x = of_int (ties_even (x / u)) * u"
    using False by (simp add: double_def Let_def e_def u_def)
  have "double x - x = (of_int (ties_even (x / u)) - x / u) * u"
    using up by (simp add: d left_diff_distrib)
  then have "\<bar>double x - x\<bar> = \<bar>of_int (ties_even (x / u)) - x / u\<bar> * u"
    using up by (simp add: abs_mult)
  also have "\<dots> \<le> 1 / 2 * u"
    using ties_even_err [of "x / u"] up by (intro mult_right_mono) simp_all
  also have "\<dots> = 2 ^ 52 * u / 2 ^ 53" by simp
  also have "\<dots> \<le> \<bar>x\<bar> / 2 ^ 53"
    using lo by (intro divide_right_mono) simp_all
  finally show ?thesis .
qed

text \<open>Small integers and two square roots, as doubles.\<close>

lemma small_doubles:
  "double 3 = 3" "double 4 = 4" "double 9 = 9" "double 16 = 16" "double 25 = 25"
  "double 45 = 45" "double 125 = 125" "double 10 = 10" "double 20 = 20"
  "double 200 = 200" "double 15000 = 15000"
  "double 150000 = 150000" "double 1200 = 1200" "double 4800 = 4800"
  "double 45000 = 45000" "double 360 = 360" "double 1440 = 1440"
  using double_eq [of "1 / 2 ^ 51" "- 51" 3 "6755399441055744"]
    double_eq [of "1 / 2 ^ 50" "- 50" 4 "4503599627370496"]
    double_eq [of "1 / 2 ^ 49" "- 49" 9 "5066549580791808"]
    double_eq [of "1 / 2 ^ 48" "- 48" 16 "4503599627370496"]
    double_eq [of "1 / 2 ^ 48" "- 48" 25 "7036874417766400"]
    double_eq [of "1 / 2 ^ 47" "- 47" 45 "6333186975989760"]
    double_eq [of "1 / 2 ^ 46" "- 46" 125 "8796093022208000"]
    double_eq [of "1 / 2 ^ 49" "- 49" 10 "5629499534213120"]
    double_eq [of "1 / 2 ^ 48" "- 48" 20 "5629499534213120"]
    double_eq [of "1 / 2 ^ 45" "- 45" 200 "7036874417766400"]
    double_eq [of "1 / 2 ^ 39" "- 39" 15000 "8246337208320000"]
    double_eq [of "1 / 2 ^ 35" "- 35" 150000 "5153960755200000"]
    double_eq [of "1 / 2 ^ 42" "- 42" 1200 "5277655813324800"]
    double_eq [of "1 / 2 ^ 40" "- 40" 4800 "5277655813324800"]
    double_eq [of "1 / 2 ^ 37" "- 37" 45000 "6184752906240000"]
    double_eq [of "1 / 2 ^ 44" "- 44" 360 "6333186975989760"]
    double_eq [of "1 / 2 ^ 42" "- 42" 1440 "6333186975989760"]
  by simp_all

lemma double_sqrt_45: "double (sqrt 45) = 7552766182682364 / 2 ^ 50"
  using double_sqrt_eq [of "1 / 2 ^ 50" "- 50" 7552766182682364 45]
  by (simp add: power_divide)

lemma double_sqrt_125: "double (sqrt 125) = 6293971818901970 / 2 ^ 49"
  using double_sqrt_eq [of "1 / 2 ^ 49" "- 49" 6293971818901970 125]
  by (simp add: power_divide)

text \<open>With no rounding the rounded loop bodies are the exact ones.\<close>

lemma pair_force_r_exact: "pair_force_r (\<lambda>x. x) g p1 p2 = pair_force g p1 p2"
  by (simp add: pair_force_r_def pair_force_def Let_def)

lemma attract_r_exact: "attract_r (\<lambda>x. x) ax ay strength p = attract ax ay strength p"
  by (simp add: attract_r_def pull_r_def attractor_terms_r_def attract_def Let_def)

lemma applyAttractor_r_exact:
  "applyAttractor_r (\<lambda>x. x) ax ay strength st = applyAttractor ax ay strength st"
  by (simp add: applyAttractor_r_def applyAttractor_def attract_r_exact)

section \<open>Newton's third law\<close>

lemma pair_force_swap:
  "pair_force g p2 p1 = (- fst (pair_force g p1 p2), - snd (pair_force g p1 p2))"
proof -
  define dx where "dx = p_x p2 - p_x p1"
  define dy where "dy = p_y p2 - p_y p1"
  have nx: "p_x p1 - p_x p2 = - dx" and ny: "p_y p1 - p_y p2 = - dy"
    by (simp_all add: dx_def dy_def)
  have a: "pair_force g p1 p2 =
      (g * mass p1 * mass p2 / (dx * dx + dy * dy + softening) * dx
          / sqrt (dx * dx + dy * dy + softening),
       g * mass p1 * mass p2 / (dx * dx + dy * dy + softening) * dy
          / sqrt (dx * dx + dy * dy + softening))"
    by (simp add: pair_force_def Let_def dx_def dy_def)
  have b: "pair_force g p2 p1 =
      (g * mass p2 * mass p1 / (- dx * - dx + - dy * - dy + softening) * - dx
          / sqrt (- dx * - dx + - dy * - dy + softening),
       g * mass p2 * mass p1 / (- dx * - dx + - dy * - dy + softening) * - dy
          / sqrt (- dx * - dx + - dy * - dy + softening))"
    unfolding pair_force_def Let_def nx ny ..
  show ?thesis
    unfolding a b by (simp add: mult.commute mult.left_commute)
qed

lemma pair_force_r_swap:
  fixes rnd :: "real \<Rightarrow> real"
  assumes odd: "\<And>x. rnd (- x) = - rnd x"
    and prod: "rnd (rnd (g * mass p1) * mass p2) = rnd (rnd (g * mass p2) * mass p1)"
  shows "pair_force_r rnd g p2 p1
           = (- fst (pair_force_r rnd g p1 p2), - snd (pair_force_r rnd g p1 p2))"
proof -
  define dx where "dx = rnd (p_x p2 - p_x p1)"
  define dy where "dy = rnd (p_y p2 - p_y p1)"
  have nx: "rnd (p_x p1 - p_x p2) = - dx"
    using odd [of "p_x p2 - p_x p1"] by (simp add: dx_def)
  have ny: "rnd (p_y p1 - p_y p2) = - dy"
    using odd [of "p_y p2 - p_y p1"] by (simp add: dy_def)
  define D where "D = rnd (rnd (rnd (dx * dx) + rnd (dy * dy)) + softening)"
  define F where "F = rnd (rnd (rnd (g * mass p1) * mass p2) / D)"
  have a: "pair_force_r rnd g p1 p2
      = (rnd (rnd (F * dx) / rnd (sqrt D)), rnd (rnd (F * dy) / rnd (sqrt D)))"
    by (simp add: pair_force_r_def Let_def dx_def dy_def D_def F_def)
  have "pair_force_r rnd g p2 p1
      = (rnd (rnd (F * - dx) / rnd (sqrt D)), rnd (rnd (F * - dy) / rnd (sqrt D)))"
    unfolding pair_force_r_def Let_def nx ny
    by (simp add: D_def F_def prod)
  also have "\<dots> = (- rnd (rnd (F * dx) / rnd (sqrt D)), - rnd (rnd (F * dy) / rnd (sqrt D)))"
    using odd [of "F * dx"] odd [of "F * dy"]
      odd [of "rnd (F * dx) / rnd (sqrt D)"] odd [of "rnd (F * dy) / rnd (sqrt D)"]
    by simp
  finally show ?thesis by (simp add: a)
qed

text \<open>
  C3, as the code has it: for any two particles, the contribution that the loop of the
  first computes from the second is the opposite vector of the contribution that the
  loop of the second computes from the first, with the same magnitude, under the
  softened law \<open>d\<^sup>2 = |p\<^sub>j - p\<^sub>i|\<^sup>2 + 20\<close>: in exact arithmetic always, and in the doubles
  of the code whenever the product \<open>G * m\<^sub>i * m\<^sub>j\<close> rounds to the same double in both
  orders of the masses.
\<close>

theorem pair_force_opposite:
  "fst (pair_force g p1 p2) = - fst (pair_force g p2 p1) \<and>
   snd (pair_force g p1 p2) = - snd (pair_force g p2 p1) \<and>
   sqrt ((fst (pair_force g p1 p2))\<^sup>2 + (snd (pair_force g p1 p2))\<^sup>2)
     = sqrt ((fst (pair_force g p2 p1))\<^sup>2 + (snd (pair_force g p2 p1))\<^sup>2) \<and>
   (double (double (g * mass p1) * mass p2) = double (double (g * mass p2) * mass p1) \<longrightarrow>
      fst (pair_force_r double g p1 p2) = - fst (pair_force_r double g p2 p1) \<and>
      snd (pair_force_r double g p1 p2) = - snd (pair_force_r double g p2 p1) \<and>
      sqrt ((fst (pair_force_r double g p1 p2))\<^sup>2 + (snd (pair_force_r double g p1 p2))\<^sup>2)
        = sqrt ((fst (pair_force_r double g p2 p1))\<^sup>2 + (snd (pair_force_r double g p2 p1))\<^sup>2))"
proof -
  have exact: "fst (pair_force g p1 p2) = - fst (pair_force g p2 p1) \<and>
      snd (pair_force g p1 p2) = - snd (pair_force g p2 p1) \<and>
      sqrt ((fst (pair_force g p1 p2))\<^sup>2 + (snd (pair_force g p1 p2))\<^sup>2)
        = sqrt ((fst (pair_force g p2 p1))\<^sup>2 + (snd (pair_force g p2 p1))\<^sup>2)"
    by (simp add: pair_force_swap [of g p2 p1])
  have rounded: "fst (pair_force_r double g p1 p2) = - fst (pair_force_r double g p2 p1) \<and>
      snd (pair_force_r double g p1 p2) = - snd (pair_force_r double g p2 p1) \<and>
      sqrt ((fst (pair_force_r double g p1 p2))\<^sup>2 + (snd (pair_force_r double g p1 p2))\<^sup>2)
        = sqrt ((fst (pair_force_r double g p2 p1))\<^sup>2 + (snd (pair_force_r double g p2 p1))\<^sup>2)"
    if "double (double (g * mass p1) * mass p2) = double (double (g * mass p2) * mass p1)"
    using pair_force_r_swap [of double g p1 p2, OF double_minus that] by simp
  show ?thesis using exact rounded by blast
qed

theorem pair_force_opposite_witness:
  "double (double (1 * mass (body 0 10 100 100)) * mass (body 1 20 103 104))
     = double (double (1 * mass (body 1 20 103 104)) * mass (body 0 10 100 100)) \<and>
   fst (pair_force_r double 1 (body 0 10 100 100) (body 1 20 103 104))
     = - fst (pair_force_r double 1 (body 1 20 103 104) (body 0 10 100 100)) \<and>
   snd (pair_force_r double 1 (body 0 10 100 100) (body 1 20 103 104))
     = - snd (pair_force_r double 1 (body 1 20 103 104) (body 0 10 100 100))"
proof -
  have h: "double (double (1 * mass (body 0 10 100 100)) * mass (body 1 20 103 104))
      = double (double (1 * mass (body 1 20 103 104)) * mass (body 0 10 100 100))"
    by (simp add: body_def small_doubles)
  from pair_force_opposite [of 1 "body 0 10 100 100" "body 1 20 103 104"] h
  show ?thesis by blast
qed

lemma pair_force_r_fst_chain:
  assumes "rnd (p_x p2 - p_x p1) = dx" and "rnd (p_y p2 - p_y p1) = dy"
    and "rnd (dx * dx) = xx" and "rnd (dy * dy) = yy" and "rnd (xx + yy) = ss"
    and "rnd (ss + softening) = D" and "rnd (sqrt D) = dst"
    and "rnd (g * mass p1) = a" and "rnd (a * mass p2) = P" and "rnd (P / D) = F"
    and "rnd (F * dx) = t" and "rnd (t / dst) = fx"
  shows "fst (pair_force_r rnd g p1 p2) = fx"
  using assms by (simp add: pair_force_r_def Let_def)

text \<open>
  In doubles, with \<open>G = 1.2\<close> and the masses 2.37 and 2.8200000000000003 at
  \<open>(100, 100)\<close> and \<open>(103, 104)\<close>, the product \<open>G * m\<^sub>1 * m\<^sub>2\<close> is 8.02008 in one order of
  the masses and 8.020080000000002 in the other, and the two contributions on the x
  axis are 0.07970419584438451 and -0.07970419584438453.
\<close>

theorem pair_force_opposite_counterexample:
  "fst (pair_force_r double (double 1.2)
          (body 0 (double 2.37) 100 100) (body 1 (double 2.8200000000000003) 103 104))
     \<noteq> - fst (pair_force_r double (double 1.2)
          (body 1 (double 2.8200000000000003) 103 104) (body 0 (double 2.37) 100 100))"
proof -
  have g: "double (1.2) = 5404319552844595 / 2 ^ 52"
    using double_eq [of "1 / 2 ^ 52" "- 52" "1.2" "5404319552844595"] by simp
  have m0: "double (2.37) = 5336765558434038 / 2 ^ 51"
    using double_eq [of "1 / 2 ^ 51" "- 51" "2.37" "5336765558434038"] by simp
  have m1: "double (2.8200000000000003) = 6350075474592400 / 2 ^ 51"
    using double_eq [of "1 / 2 ^ 51" "- 51" "2.8200000000000003" "6350075474592400"] by simp
  have a: "double (5404319552844595 / 2 ^ 52 * (5336765558434038 / 2 ^ 51)) = 6404118670120845 / 2 ^ 51"
    using double_eq [of "1 / 2 ^ 51" "- 51" "5404319552844595 / 2 ^ 52 * (5336765558434038 / 2 ^ 51)" "6404118670120845"] by simp
  have P12: "double (6404118670120845 / 2 ^ 51 * (6350075474592400 / 2 ^ 51)) = 4514903662435196 / 2 ^ 49"
    using double_eq [of "1 / 2 ^ 49" "- 49" "6404118670120845 / 2 ^ 51 * (6350075474592400 / 2 ^ 51)" "4514903662435196"] by simp
  have b: "double (5404319552844595 / 2 ^ 52 * (6350075474592400 / 2 ^ 51)) = 7620090569510880 / 2 ^ 51"
    using double_eq [of "1 / 2 ^ 51" "- 51" "5404319552844595 / 2 ^ 52 * (6350075474592400 / 2 ^ 51)" "7620090569510880"] by simp
  have P21: "double (7620090569510880 / 2 ^ 51 * (5336765558434038 / 2 ^ 51)) = 4514903662435197 / 2 ^ 49"
    using double_eq [of "1 / 2 ^ 49" "- 49" "7620090569510880 / 2 ^ 51 * (5336765558434038 / 2 ^ 51)" "4514903662435197"] by simp
  have F12: "double (4514903662435196 / 2 ^ 49 / 45) = 6421196319907834 / 2 ^ 55"
    using double_eq [of "1 / 2 ^ 55" "- 55" "4514903662435196 / 2 ^ 49 / 45" "6421196319907834"] by simp
  have F21: "double (4514903662435197 / 2 ^ 49 / 45) = 6421196319907836 / 2 ^ 55"
    using double_eq [of "1 / 2 ^ 55" "- 55" "4514903662435197 / 2 ^ 49 / 45" "6421196319907836"] by simp
  have t12: "double (6421196319907834 / 2 ^ 55 * 3) = 4815897239930876 / 2 ^ 53"
    using double_eq_half [of "1 / 2 ^ 53" "- 53" "6421196319907834 / 2 ^ 55 * 3" "4815897239930875"] by simp
  have t21: "double (6421196319907836 / 2 ^ 55 * 3) = 4815897239930877 / 2 ^ 53"
    using double_eq [of "1 / 2 ^ 53" "- 53" "6421196319907836 / 2 ^ 55 * 3" "4815897239930877"] by simp
  have fx12: "double (4815897239930876 / 2 ^ 53 / (7552766182682364 / 2 ^ 50)) = 5743292587274162 / 2 ^ 56"
    using double_eq [of "1 / 2 ^ 56" "- 56" "4815897239930876 / 2 ^ 53 / (7552766182682364 / 2 ^ 50)" "5743292587274162"] by simp
  have fx21: "double (4815897239930877 / 2 ^ 53 / (7552766182682364 / 2 ^ 50)) = 5743292587274163 / 2 ^ 56"
    using double_eq [of "1 / 2 ^ 56" "- 56" "4815897239930877 / 2 ^ 53 / (7552766182682364 / 2 ^ 50)" "5743292587274163"] by simp
  have pos: "double (103 - 100) = 3" "double (104 - 100) = 4"
    "double (100 - 103) = - 3" "double (100 - 104) = - 4"
    "double (3 * 3) = 9" "double (4 * 4) = 16" "double (- 3 * - 3) = 9" "double (- 4 * - 4) = 16"
    "double (9 + 16) = 25" "double (25 + softening) = 45"
    by (simp_all add: small_doubles double_minus softening_def)
  have "double (6421196319907836 / 2 ^ 55 * - 3) = double (- (6421196319907836 / 2 ^ 55 * 3))"
    by simp
  also have "\<dots> = - double (6421196319907836 / 2 ^ 55 * 3)"
    by (rule double_minus)
  finally have nt: "double (6421196319907836 / 2 ^ 55 * - 3) = - (4815897239930877 / 2 ^ 53)"
    by (simp only: t21)
  have "double (- (4815897239930877 / 2 ^ 53) / (7552766182682364 / 2 ^ 50)) = double (- (4815897239930877 / 2 ^ 53 / (7552766182682364 / 2 ^ 50)))"
    by simp
  also have "\<dots> = - double (4815897239930877 / 2 ^ 53 / (7552766182682364 / 2 ^ 50))"
    by (rule double_minus)
  finally have nf: "double (- (4815897239930877 / 2 ^ 53) / (7552766182682364 / 2 ^ 50)) = - (5743292587274163 / 2 ^ 56)"
    by (simp only: fx21)
  have l: "fst (pair_force_r double (double 1.2)
          (body 0 (double 2.37) 100 100) (body 1 (double 2.8200000000000003) 103 104))
      = 5743292587274162 / 2 ^ 56"
    by (rule pair_force_r_fst_chain [where dx = 3 and dy = 4 and xx = 9 and yy = 16 and ss = 25
          and D = 45 and dst = "7552766182682364 / 2 ^ 50" and a = "6404118670120845 / 2 ^ 51"
          and P = "4514903662435196 / 2 ^ 49" and F = "6421196319907834 / 2 ^ 55" and t = "4815897239930876 / 2 ^ 53"])
       (simp_all only: body_def Particle.simps pos double_sqrt_45 g m0 m1 a P12 F12 t12 fx12)
  have r: "fst (pair_force_r double (double 1.2)
          (body 1 (double 2.8200000000000003) 103 104) (body 0 (double 2.37) 100 100))
      = - (5743292587274163 / 2 ^ 56)"
    by (rule pair_force_r_fst_chain [where dx = "- 3" and dy = "- 4" and xx = 9 and yy = 16
          and ss = 25 and D = 45 and dst = "7552766182682364 / 2 ^ 50" and a = "7620090569510880 / 2 ^ 51"
          and P = "4514903662435197 / 2 ^ 49" and F = "6421196319907836 / 2 ^ 55" and t = "- (4815897239930877 / 2 ^ 53)"])
       (simp_all only: body_def Particle.simps pos double_sqrt_45 g m0 m1 b P21 F21 nt nf)
  show ?thesis unfolding l r by simp
qed

section \<open>The pause gate\<close>

lemma run_call_paused: "paused (config st) \<Longrightarrow> run_call c st = st"
  by (cases c) (simp_all add: step_def applyAttractor_def)

text \<open>
  C5: while the configuration is paused, any sequence of \<open>step\<close> and \<open>applyAttractor\<close>
  calls leaves the engine, and so every position and velocity, as it was.
\<close>

theorem paused_calls_change_nothing:
  assumes "paused (config st)"
  shows "run_calls cs st = st"
  unfolding run_calls_def using assms
  by (induction cs) (simp_all add: run_call_paused)

theorem paused_calls_change_nothing_witness:
  "paused (config (two_bodies (default_config\<lparr>paused := True\<rparr>))) \<and>
   run_calls [Step, ApplyAttractor 400 300 15000, Step]
       (two_bodies (default_config\<lparr>paused := True\<rparr>))
     = two_bodies (default_config\<lparr>paused := True\<rparr>)"
  using paused_calls_change_nothing
    [of "two_bodies (default_config\<lparr>paused := True\<rparr>)"
        "[Step, ApplyAttractor 400 300 15000, Step]"]
  by (simp add: two_bodies_def)

section \<open>The attractor and the mass\<close>

lemma rel_factor:
  fixes rnd :: "real \<Rightarrow> real" and u :: real
  assumes "\<bar>rnd x - x\<bar> \<le> u * \<bar>x\<bar>" and "0 \<le> u"
  obtains d where "rnd x = x * (1 + d)" and "\<bar>d\<bar> \<le> u"
proof (cases "x = 0")
  case True
  then have "rnd x = x * (1 + 0)" using assms by simp
  then show ?thesis using that [of 0] assms(2) by simp
next
  case False
  have "rnd x = x * (1 + (rnd x - x) / x)"
    using False by (simp add: field_simps)
  moreover have "\<bar>(rnd x - x) / x\<bar> \<le> u"
    using assms False by (simp add: abs_divide pos_divide_le_eq)
  ultimately show ?thesis using that by blast
qed

lemma factor_step:
  fixes a d u A :: real
  assumes "0 \<le> u" and "1 \<le> A" and "\<bar>a - 1\<bar> \<le> A - 1" and "\<bar>d\<bar> \<le> u"
  shows "\<bar>a * (1 + d) - 1\<bar> \<le> A * (1 + u) - 1"
proof -
  have "a * (1 + d) - 1 = (a - 1) * (1 + d) + d" by (simp add: algebra_simps)
  then have "\<bar>a * (1 + d) - 1\<bar> \<le> \<bar>a - 1\<bar> * \<bar>1 + d\<bar> + \<bar>d\<bar>"
    by (metis abs_mult abs_triangle_ineq)
  also have "\<dots> \<le> (A - 1) * (1 + u) + u"
  proof -
    have "\<bar>1 + d\<bar> \<le> 1 + u" using assms(4) by linarith
    then have "\<bar>a - 1\<bar> * \<bar>1 + d\<bar> \<le> (A - 1) * (1 + u)"
      using assms by (intro mult_mono) simp_all
    then show ?thesis using assms(4) by linarith
  qed
  also have "\<dots> = A * (1 + u) - 1" by (simp add: algebra_simps)
  finally show ?thesis .
qed

lemma five_factors:
  fixes u d1 d2 d3 d4 d5 :: real
  assumes "0 \<le> u"
    and "\<bar>d1\<bar> \<le> u" "\<bar>d2\<bar> \<le> u" "\<bar>d3\<bar> \<le> u" "\<bar>d4\<bar> \<le> u" "\<bar>d5\<bar> \<le> u"
  shows "\<bar>(1 + d1) * (1 + d2) * (1 + d3) * (1 + d4) * (1 + d5) - 1\<bar> \<le> (1 + u) ^ 5 - 1"
proof -
  have u1: "1 \<le> 1 + u" using assms(1) by simp
  have p: "1 \<le> (1 + u) ^ n" for n using u1 by (rule one_le_power)
  have s1: "\<bar>(1 + d1) - 1\<bar> \<le> (1 + u) ^ 1 - 1" using assms(2) by simp
  have s2: "\<bar>(1 + d1) * (1 + d2) - 1\<bar> \<le> (1 + u) ^ 1 * (1 + u) - 1"
    by (rule factor_step [OF assms(1) p s1 assms(3)])
  then have s2': "\<bar>(1 + d1) * (1 + d2) - 1\<bar> \<le> (1 + u) ^ 2 - 1"
    by (simp add: power2_eq_square)
  have s3: "\<bar>(1 + d1) * (1 + d2) * (1 + d3) - 1\<bar> \<le> (1 + u) ^ 2 * (1 + u) - 1"
    by (rule factor_step [OF assms(1) p s2' assms(4)])
  then have s3': "\<bar>(1 + d1) * (1 + d2) * (1 + d3) - 1\<bar> \<le> (1 + u) ^ 3 - 1"
    by (simp add: power3_eq_cube power2_eq_square mult.assoc)
  have s4: "\<bar>(1 + d1) * (1 + d2) * (1 + d3) * (1 + d4) - 1\<bar> \<le> (1 + u) ^ 3 * (1 + u) - 1"
    by (rule factor_step [OF assms(1) p s3' assms(5)])
  then have s4': "\<bar>(1 + d1) * (1 + d2) * (1 + d3) * (1 + d4) - 1\<bar> \<le> (1 + u) ^ 4 - 1"
    by (simp add: power4_eq_xxxx power3_eq_cube mult.assoc)
  have s5: "\<bar>(1 + d1) * (1 + d2) * (1 + d3) * (1 + d4) * (1 + d5) - 1\<bar>
      \<le> (1 + u) ^ 4 * (1 + u) - 1"
    by (rule factor_step [OF assms(1) p s4' assms(6)])
  have "(1 + u) ^ 4 * (1 + u) = (1 + u) ^ 5"
    by (simp add: numeral_eq_Suc)
  with s5 show ?thesis by simp
qed

text \<open>
  Five roundings separate a term that \<open>applyAttractor\<close> adds to a velocity from the
  quotient \<open>strength * d / (distSq * dist)\<close> of the rounded values of \<open>d\<close>, \<open>distSq\<close>
  and \<open>dist\<close>; the quotient does not mention the mass.
\<close>

lemma pull_component:
  fixes rnd :: "real \<Rightarrow> real" and u s m D dx dst :: real
  assumes re: "\<And>x. \<bar>rnd x - x\<bar> \<le> u * \<bar>x\<bar>" and u: "0 \<le> u" and m: "m \<noteq> 0"
  shows "\<bar>rnd (rnd (rnd (rnd (rnd (s * m) / D) * dx) / dst) / m) - s * dx / (D * dst)\<bar>
           \<le> ((1 + u) ^ 5 - 1) * \<bar>s * dx / (D * dst)\<bar>"
proof -
  define a1 where "a1 = rnd (s * m)"
  define a2 where "a2 = rnd (a1 / D)"
  define a3 where "a3 = rnd (a2 * dx)"
  define a4 where "a4 = rnd (a3 / dst)"
  define a5 where "a5 = rnd (a4 / m)"
  define E where "E = s * dx / (D * dst)"
  obtain d1 where 1: "a1 = s * m * (1 + d1)" "\<bar>d1\<bar> \<le> u"
    unfolding a1_def using rel_factor [of rnd "s * m" u] re u by blast
  obtain d2 where 2: "a2 = a1 / D * (1 + d2)" "\<bar>d2\<bar> \<le> u"
    unfolding a2_def using rel_factor [of rnd "a1 / D" u] re u by blast
  obtain d3 where 3: "a3 = a2 * dx * (1 + d3)" "\<bar>d3\<bar> \<le> u"
    unfolding a3_def using rel_factor [of rnd "a2 * dx" u] re u by blast
  obtain d4 where 4: "a4 = a3 / dst * (1 + d4)" "\<bar>d4\<bar> \<le> u"
    unfolding a4_def using rel_factor [of rnd "a3 / dst" u] re u by blast
  obtain d5 where 5: "a5 = a4 / m * (1 + d5)" "\<bar>d5\<bar> \<le> u"
    unfolding a5_def using rel_factor [of rnd "a4 / m" u] re u by blast
  have "a5 = E * ((1 + d1) * (1 + d2) * (1 + d3) * (1 + d4) * (1 + d5))"
    using m by (simp add: 5(1) 4(1) 3(1) 2(1) 1(1) E_def)
  then have "a5 - E = E * ((1 + d1) * (1 + d2) * (1 + d3) * (1 + d4) * (1 + d5) - 1)"
    by (simp add: algebra_simps)
  then have "\<bar>a5 - E\<bar>
      = \<bar>E\<bar> * \<bar>(1 + d1) * (1 + d2) * (1 + d3) * (1 + d4) * (1 + d5) - 1\<bar>"
    by (simp add: abs_mult)
  also have "\<dots> \<le> \<bar>E\<bar> * ((1 + u) ^ 5 - 1)"
    by (intro mult_left_mono five_factors u 1 2 3 4 5) simp
  finally show ?thesis
    by (simp add: a5_def a4_def a3_def a2_def a1_def E_def mult.commute)
qed

lemma double_pull:
  assumes "mass p \<noteq> 0"
    and "attractor_terms_r double ax ay p = (dx, dy, distSq, dst)"
  shows "\<bar>fst (pull_r double ax ay strength p) - strength * dx / (distSq * dst)\<bar>
           \<le> ((1 + 1 / 2 ^ 53) ^ 5 - 1) * \<bar>strength * dx / (distSq * dst)\<bar>"
    and "\<bar>snd (pull_r double ax ay strength p) - strength * dy / (distSq * dst)\<bar>
           \<le> ((1 + 1 / 2 ^ 53) ^ 5 - 1) * \<bar>strength * dy / (distSq * dst)\<bar>"
proof -
  have re: "\<bar>double x - x\<bar> \<le> 1 / 2 ^ 53 * \<bar>x\<bar>" for x
    using double_rel_err [of x] by simp
  show "\<bar>fst (pull_r double ax ay strength p) - strength * dx / (distSq * dst)\<bar>
           \<le> ((1 + 1 / 2 ^ 53) ^ 5 - 1) * \<bar>strength * dx / (distSq * dst)\<bar>"
    using pull_component [of double "1 / 2 ^ 53" "mass p" strength distSq dx dst, OF re]
      assms by (simp add: pull_r_def Let_def)
  show "\<bar>snd (pull_r double ax ay strength p) - strength * dy / (distSq * dst)\<bar>
           \<le> ((1 + 1 / 2 ^ 53) ^ 5 - 1) * \<bar>strength * dy / (distSq * dst)\<bar>"
    using pull_component [of double "1 / 2 ^ 53" "mass p" strength distSq dy dst, OF re]
      assms by (simp add: pull_r_def Let_def)
qed

lemma attractor_terms_r_mass:
  "attractor_terms_r rnd ax ay (p\<lparr>mass := m\<rparr>) = attractor_terms_r rnd ax ay p"
  by (simp add: attractor_terms_r_def)

text \<open>
  C10, as the code has it: a call of \<open>applyAttractor\<close> that is not paused changes the
  velocity of each particle of mass other than zero by \<open>strength * d / (distSq * dist)\<close>,
  whatever the mass: exactly so in exact arithmetic. In the doubles of the code the
  term added to the velocity differs from that quotient, taken of the rounded \<open>d\<close>,
  \<open>distSq\<close> and \<open>dist\<close> (which depend on the position only), by a relative error of
  at most \<open>(1 + 2\<^sup>-\<^sup>5\<^sup>3)\<^sup>5 - 1\<close>, so that the mass can show in the last bits only.
\<close>

theorem attract_independent_of_mass:
  assumes "\<not> paused (config st)" and "i < length (particles st)"
    and "mass (particles st ! i) \<noteq> 0"
  shows "(let p = particles st ! i;
              dx = ax - p_x p;
              dy = ay - p_y p;
              distSq = dx * dx + dy * dy + 100;
              dst = sqrt distSq
          in vx (particles (applyAttractor ax ay strength st) ! i) - vx p
               = strength * dx / (distSq * dst) \<and>
             vy (particles (applyAttractor ax ay strength st) ! i) - vy p
               = strength * dy / (distSq * dst))
       \<and> (let p = particles st ! i;
               (dx, dy, distSq, dst) = attractor_terms_r double ax ay p;
               (ix, iy) = pull_r double ax ay strength p
           in vx (particles (applyAttractor_r double ax ay strength st) ! i) = double (vx p + ix) \<and>
              vy (particles (applyAttractor_r double ax ay strength st) ! i) = double (vy p + iy) \<and>
              \<bar>ix - strength * dx / (distSq * dst)\<bar>
                \<le> ((1 + 1 / 2 ^ 53) ^ 5 - 1) * \<bar>strength * dx / (distSq * dst)\<bar> \<and>
              \<bar>iy - strength * dy / (distSq * dst)\<bar>
                \<le> ((1 + 1 / 2 ^ 53) ^ 5 - 1) * \<bar>strength * dy / (distSq * dst)\<bar> \<and>
              attractor_terms_r double ax ay (p\<lparr>mass := m\<rparr>) = (dx, dy, distSq, dst))"
proof -
  let ?p = "particles st ! i"
  have a: "particles (applyAttractor ax ay strength st) ! i = attract ax ay strength ?p"
    using assms(1,2) by (simp add: applyAttractor_def)
  have b: "particles (applyAttractor_r double ax ay strength st) ! i
      = attract_r double ax ay strength ?p"
    using assms(1,2) by (simp add: applyAttractor_r_def)
  have exact: "(let p = particles st ! i;
              dx = ax - p_x p;
              dy = ay - p_y p;
              distSq = dx * dx + dy * dy + 100;
              dst = sqrt distSq
          in vx (particles (applyAttractor ax ay strength st) ! i) - vx p
               = strength * dx / (distSq * dst) \<and>
             vy (particles (applyAttractor ax ay strength st) ! i) - vy p
               = strength * dy / (distSq * dst))"
    unfolding a using assms(3) by (simp add: attract_def Let_def)
  obtain dx dy distSq dst where t: "attractor_terms_r double ax ay ?p = (dx, dy, distSq, dst)"
    by (cases "attractor_terms_r double ax ay ?p") auto
  obtain ix iy where q: "pull_r double ax ay strength ?p = (ix, iy)"
    by (cases "pull_r double ax ay strength ?p")
  note bound = double_pull [OF assms(3) t, of strength, unfolded q fst_conv snd_conv]
  have rounded: "(let p = particles st ! i;
               (dx, dy, distSq, dst) = attractor_terms_r double ax ay p;
               (ix, iy) = pull_r double ax ay strength p
           in vx (particles (applyAttractor_r double ax ay strength st) ! i) = double (vx p + ix) \<and>
              vy (particles (applyAttractor_r double ax ay strength st) ! i) = double (vy p + iy) \<and>
              \<bar>ix - strength * dx / (distSq * dst)\<bar>
                \<le> ((1 + 1 / 2 ^ 53) ^ 5 - 1) * \<bar>strength * dx / (distSq * dst)\<bar> \<and>
              \<bar>iy - strength * dy / (distSq * dst)\<bar>
                \<le> ((1 + 1 / 2 ^ 53) ^ 5 - 1) * \<bar>strength * dy / (distSq * dst)\<bar> \<and>
              attractor_terms_r double ax ay (p\<lparr>mass := m\<rparr>) = (dx, dy, distSq, dst))"
    unfolding b Let_def attractor_terms_r_mass t q
    using bound by (simp add: attract_r_def q)
  show ?thesis using exact rounded by (rule conjI)
qed

theorem attract_independent_of_mass_witness:
  "\<not> paused (config (two_bodies default_config)) \<and>
   0 < length (particles (two_bodies default_config)) \<and>
   mass (particles (two_bodies default_config) ! 0) \<noteq> 0 \<and>
   vx (particles (applyAttractor 103 104 15000 (two_bodies default_config)) ! 0)
     - vx (particles (two_bodies default_config) ! 0) = 15000 * 3 / (125 * sqrt 125) \<and>
   vy (particles (applyAttractor 103 104 15000 (two_bodies default_config)) ! 0)
     - vy (particles (two_bodies default_config) ! 0) = 15000 * 4 / (125 * sqrt 125)"
proof -
  let ?st = "two_bodies default_config"
  have h: "\<not> paused (config ?st)" "0 < length (particles ?st)" "mass (particles ?st ! 0) \<noteq> 0"
    by (simp_all add: two_bodies_def default_config_def body_def)
  have p: "particles ?st ! 0 = body 0 10 100 100"
    by (simp add: two_bodies_def)
  from attract_independent_of_mass [OF h, of 103 104 15000, THEN conjunct1]
  have "vx (particles (applyAttractor 103 104 15000 ?st) ! 0) - vx (particles ?st ! 0)
        = 15000 * 3 / (125 * sqrt 125) \<and>
      vy (particles (applyAttractor 103 104 15000 ?st) ! 0) - vy (particles ?st ! 0)
        = 15000 * 4 / (125 * sqrt 125)"
    unfolding p by (simp add: Let_def body_def)
  with h show ?thesis by simp
qed

lemma pull_r_snd_chain:
  assumes "rnd (ax - p_x p) = dx" and "rnd (ay - p_y p) = dy"
    and "rnd (dx * dx) = xx" and "rnd (dy * dy) = yy" and "rnd (xx + yy) = ss"
    and "rnd (ss + 100) = D" and "rnd (sqrt D) = dst"
    and "rnd (strength * mass p) = a" and "rnd (a / D) = F"
    and "rnd (F * dy) = t" and "rnd (t / dst) = q" and "rnd (q / mass p) = iy"
  shows "snd (pull_r rnd ax ay strength p) = iy"
  using assms by (simp add: pull_r_def attractor_terms_r_def Let_def)

text \<open>
  In doubles, for the attractor at \<open>(103, 104)\<close> with strength 15000 and two particles
  at rest at \<open>(100, 100)\<close>, one call gives the particle of mass 10 the velocity
  42.932505167995956 on the y axis and the particle of mass 3 the velocity
  42.93250516799596.
\<close>

theorem attract_independent_of_mass_counterexample:
  "vy (particles (applyAttractor_r double 103 104 15000 twin_bodies) ! 0)
     \<noteq> vy (particles (applyAttractor_r double 103 104 15000 twin_bodies) ! 1)"
proof -
  have q10: "double (4800 / (6293971818901970 / 2 ^ 49)) = 7552766182682363 / 2 ^ 44"
    using double_eq [of "1 / 2 ^ 44" "- 44" "4800 / (6293971818901970 / 2 ^ 49)" "7552766182682363"] by simp
  have y10: "double (7552766182682363 / 2 ^ 44 / 10) = 6042212946145890 / 2 ^ 47"
    using double_eq [of "1 / 2 ^ 47" "- 47" "7552766182682363 / 2 ^ 44 / 10" "6042212946145890"] by simp
  have q3: "double (1440 / (6293971818901970 / 2 ^ 49)) = 4531659709609418 / 2 ^ 45"
    using double_eq [of "1 / 2 ^ 45" "- 45" "1440 / (6293971818901970 / 2 ^ 49)" "4531659709609418"] by simp
  have y3: "double (4531659709609418 / 2 ^ 45 / 3) = 6042212946145891 / 2 ^ 47"
    using double_eq [of "1 / 2 ^ 47" "- 47" "4531659709609418 / 2 ^ 45 / 3" "6042212946145891"] by simp
  have pos: "double (103 - 100) = 3" "double (104 - 100) = 4"
    "double (3 * 3) = 9" "double (4 * 4) = 16" "double (9 + 16) = 25" "double (25 + 100) = 125"
    "double (15000 * 10) = 150000" "double (150000 / 125) = 1200" "double (1200 * 4) = 4800"
    "double (15000 * 3) = 45000" "double (45000 / 125) = 360" "double (360 * 4) = 1440"
    by (simp_all add: small_doubles)
  have l: "snd (pull_r double 103 104 15000 (body 0 10 100 100)) = 6042212946145890 / 2 ^ 47"
    by (rule pull_r_snd_chain [where dx = 3 and dy = 4 and xx = 9 and yy = 16 and ss = 25
          and D = 125 and dst = "6293971818901970 / 2 ^ 49" and a = 150000 and F = 1200
          and t = 4800 and q = "7552766182682363 / 2 ^ 44"])
       (simp_all only: body_def Particle.simps pos double_sqrt_125 q10 y10)
  have r: "snd (pull_r double 103 104 15000 (body 1 3 100 100)) = 6042212946145891 / 2 ^ 47"
    by (rule pull_r_snd_chain [where dx = 3 and dy = 4 and xx = 9 and yy = 16 and ss = 25
          and D = 125 and dst = "6293971818901970 / 2 ^ 49" and a = 45000 and F = 360
          and t = 1440 and q = "4531659709609418 / 2 ^ 45"])
       (simp_all only: body_def Particle.simps pos double_sqrt_125 q3 y3)
  have s0: "double (6042212946145890 / 2 ^ 47) = 6042212946145890 / 2 ^ 47"
    using double_eq [of "1 / 2 ^ 47" "- 47" "6042212946145890 / 2 ^ 47" "6042212946145890"] by simp
  have s1: "double (6042212946145891 / 2 ^ 47) = 6042212946145891 / 2 ^ 47"
    using double_eq [of "1 / 2 ^ 47" "- 47" "6042212946145891 / 2 ^ 47" "6042212946145891"] by simp
  have v0: "vy (particles (applyAttractor_r double 103 104 15000 twin_bodies) ! 0)
      = double (0 + snd (pull_r double 103 104 15000 (body 0 10 100 100)))"
    by (simp add: applyAttractor_r_def twin_bodies_def default_config_def attract_r_def
        body_def)
  have v1: "vy (particles (applyAttractor_r double 103 104 15000 twin_bodies) ! 1)
      = double (0 + snd (pull_r double 103 104 15000 (body 1 3 100 100)))"
    by (simp add: applyAttractor_r_def twin_bodies_def default_config_def attract_r_def
        body_def)
  have "vy (particles (applyAttractor_r double 103 104 15000 twin_bodies) ! 0) = 6042212946145890 / 2 ^ 47"
    unfolding v0 l by (simp only: add_0 s0)
  moreover have "vy (particles (applyAttractor_r double 103 104 15000 twin_bodies) ! 1) = 6042212946145891 / 2 ^ 47"
    unfolding v1 r by (simp only: add_0 s1)
  ultimately show ?thesis by simp
qed

section \<open>Initialisation\<close>

lemma init_loop_length:
  "length (particles (fst (init_loop i st r)))
     = length (particles st) + (nat \<lceil>particleCount (config st)\<rceil> - i)"
proof (induction i st r rule: init_loop.induct)
  case (1 i st r)
  show ?case
  proof (cases "real i < particleCount (config st)")
    case True
    obtain p r' where np: "new_particle i st r = (p, r')"
      by (cases "new_particle i st r")
    have "int i < \<lceil>particleCount (config st)\<rceil>"
      using True by (simp add: less_ceiling_iff)
    then have lt: "i < nat \<lceil>particleCount (config st)\<rceil>" by simp
    have "length (particles (fst (init_loop i st r)))
        = length (particles (fst (init_loop (Suc i) (st\<lparr>particles := particles st @ [p]\<rparr>) r')))"
      using True np by (subst init_loop.simps) simp
    also have "\<dots> = length (particles st @ [p]) + (nat \<lceil>particleCount (config st)\<rceil> - Suc i)"
      using "1.IH" [OF True np [symmetric]] by simp
    finally show ?thesis using lt by simp
  next
    case False
    then have "particleCount (config st) \<le> real i" by simp
    then have "nat \<lceil>particleCount (config st)\<rceil> \<le> i" by simp
    then have z: "nat \<lceil>particleCount (config st)\<rceil> - i = 0" by (rule diff_is_0_eq')
    have "init_loop i st r = (st, r)"
      using False by (subst init_loop.simps) simp
    then show ?thesis by (simp only: z fst_conv add_0_right)
  qed
qed

lemma new_particle_radius:
  "radius (fst (new_particle i st r)) = sqrt (mass (fst (new_particle i st r))) * 0.5"
  by (simp add: new_particle_def Let_def split: prod.splits)

lemma init_loop_radius:
  "\<forall>p \<in> set (particles st). radius p = sqrt (mass p) * 0.5 \<Longrightarrow>
   \<forall>p \<in> set (particles (fst (init_loop i st r))). radius p = sqrt (mass p) * 0.5"
proof (induction i st r rule: init_loop.induct)
  case (1 i st r)
  show ?case
  proof (cases "real i < particleCount (config st)")
    case True
    obtain p r' where np: "new_particle i st r = (p, r')"
      by (cases "new_particle i st r")
    have rp: "radius p = sqrt (mass p) * 0.5"
      using new_particle_radius [of i st r] np by simp
    have eq: "init_loop i st r = init_loop (Suc i) (st\<lparr>particles := particles st @ [p]\<rparr>) r'"
      using True np by (subst init_loop.simps) simp
    have "\<forall>q \<in> set (particles (st\<lparr>particles := particles st @ [p]\<rparr>)).
            radius q = sqrt (mass q) * 0.5"
      using "1.prems" rp by simp
    from "1.IH" [OF True np [symmetric] this] show ?thesis
      unfolding eq .
  next
    case False
    then have "init_loop i st r = (st, r)"
      by (subst init_loop.simps) simp
    then show ?thesis using "1.prems" by simp
  qed
qed

text \<open>
  C6: \<open>init\<close> with a particle count \<open>n\<close> leaves exactly \<open>n\<close> particles, and the radius
  of each is \<open>sqrt mass * 0.5\<close>.
\<close>

theorem init_count_and_radius:
  assumes "particleCount (config st) = real n"
  shows "length (particles (fst (init st r))) = n \<and>
         (\<forall>p \<in> set (particles (fst (init st r))). radius p = sqrt (mass p) * 0.5)"
proof
  show "length (particles (fst (init st r))) = n"
    using assms by (simp add: init_def init_loop_length)
  show "\<forall>p \<in> set (particles (fst (init st r))). radius p = sqrt (mass p) * 0.5"
    unfolding init_def by (rule init_loop_radius) simp
qed

theorem init_count_and_radius_witness:
  "particleCount (config (two_bodies default_config)) = real 2 \<and>
   length (particles (fst (init (two_bodies default_config) halves))) = 2 \<and>
   radius (particles (fst (init (two_bodies default_config) halves)) ! 0)
     = sqrt (mass (particles (fst (init (two_bodies default_config) halves)) ! 0)) * 0.5"
proof -
  have h: "particleCount (config (two_bodies default_config)) = real 2"
    by (simp add: two_bodies_def)
  note t = init_count_and_radius [OF h, of halves]
  from t have "particles (fst (init (two_bodies default_config) halves)) ! 0
      \<in> set (particles (fst (init (two_bodies default_config) halves)))"
    by (simp del: set_conv_nth)
  with t h show ?thesis by blast
qed

section \<open>Configuration changes\<close>

lemma recolor_loop_length: "length (fst (recolor_loop pal ps r)) = length ps"
  by (induction ps arbitrary: r) (simp_all add: split_beta)

lemma recolor_loop_kinematics:
  "map kinematics (fst (recolor_loop pal ps r)) = map kinematics ps"
  by (induction ps arbitrary: r) (simp_all add: split_beta kinematics_def)

lemma after_colors_Suc:
  "after_colors pal (Suc k) r = after_colors pal k (snd (generateColor pal r))"
  by (simp add: after_colors_def funpow_Suc_right del: funpow.simps)

lemma recolor_loop_nth:
  "i < length ps \<Longrightarrow>
   fst (recolor_loop pal ps r) ! i
     = (ps ! i)\<lparr>color := fst (generateColor pal (after_colors pal i r))\<rparr>"
proof (induction ps arbitrary: r i)
  case Nil
  then show ?case by simp
next
  case (Cons p ps)
  show ?case
  proof (cases i)
    case 0
    then show ?thesis by (simp add: after_colors_def split_beta)
  next
    case (Suc k)
    then have "k < length ps" using Cons.prems by simp
    from Cons.IH [OF this, of "snd (generateColor pal r)"] Suc show ?thesis
      by (simp add: after_colors_Suc split_beta)
  qed
qed

lemma init_length:
  "particleCount (config st) = real n \<Longrightarrow> length (particles (fst (init st r))) = n"
  by (simp add: init_def init_loop_length)

text \<open>
  Whatever the store held before, after \<open>setConfig\<close> with a natural particle count it
  holds that many particles; so does a new engine.
\<close>

lemma setConfig_count:
  assumes "particleCount cfg = real n"
  shows "length (particles (fst (setConfig cfg st r))) = n"
proof (cases "real (length (particles st)) = particleCount cfg")
  case True
  then have "length (particles st) = n" using assms by simp
  with True show ?thesis
    by (simp add: setConfig_def Let_def refreshColors_def split_beta recolor_loop_length)
next
  case False
  then show ?thesis
    using assms by (simp add: setConfig_def Let_def init_length)
qed

lemma constructor_count:
  "particleCount cfg = real n \<Longrightarrow> length (particles (fst (constructor cfg w h r))) = n"
  by (simp add: constructor_def init_length)

lemma list_of_two: "length xs = 2 \<Longrightarrow> xs = [xs ! 0, xs ! 1]"
proof -
  assume "length xs = 2"
  then obtain a b where "xs = [a, b]"
    by (cases xs; cases "tl xs") auto
  then show ?thesis by simp
qed

text \<open>
  C7: a new configuration with the particle count of the store and another palette
  keeps the number of particles, and each particle is the old one with only its colour
  replaced by the next colour that \<open>generateColor\<close> draws for the new palette.
\<close>

theorem palette_change_recolors_only:
  assumes "particleCount cfg = real (length (particles st))"
    and "palette cfg \<noteq> palette (config st)"
  shows "length (particles (fst (setConfig cfg st r))) = length (particles st) \<and>
         (\<forall>i < length (particles st).
            particles (fst (setConfig cfg st r)) ! i
              = (particles st ! i)
                  \<lparr>color := fst (generateColor (palette cfg) (after_colors (palette cfg) i r))\<rparr>)"
  using assms
  by (simp add: setConfig_def Let_def refreshColors_def recolor_loop_length recolor_loop_nth
      split_beta)

theorem palette_change_recolors_only_witness:
  "particleCount (default_config\<lparr>particleCount := 2, palette := ocean\<rparr>)
     = real (length (particles (two_bodies default_config))) \<and>
   palette (default_config\<lparr>particleCount := 2, palette := ocean\<rparr>)
     \<noteq> palette (config (two_bodies default_config)) \<and>
   particles (fst (setConfig (default_config\<lparr>particleCount := 2, palette := ocean\<rparr>)
                      (two_bodies default_config) halves))
     = [(body 0 10 100 100)\<lparr>color := ''hsla(200, 100%, 50%, 1.0)''\<rparr>,
        (body 1 20 103 104)\<lparr>color := ''hsla(200, 100%, 50%, 1.0)''\<rparr>]"
proof -
  let ?cfg = "default_config\<lparr>particleCount := 2, palette := ocean\<rparr>"
  let ?st = "two_bodies default_config"
  have h1: "particleCount ?cfg = real (length (particles ?st))"
    by (simp add: two_bodies_def default_config_def)
  have h2: "palette ?cfg \<noteq> palette (config ?st)"
    by (simp add: two_bodies_def default_config_def)
  have d: "digits 200 = ''200''" "digits 100 = ''100''" "digits 50 = ''50''"
    by code_simp+
  have sh: "snd (generateColor ocean halves) = halves"
    by (simp add: generateColor_def random_def halves_def)
  have c: "fst (generateColor ocean halves) = ''hsla(200, 100%, 50%, 1.0)''"
    by (simp add: generateColor_def random_def halves_def hsla_def show_int_def d)
  have a: "after_colors ocean k halves = halves" for k
    by (induction k) (simp_all add: after_colors_def sh)
  note t = palette_change_recolors_only [OF h1 h2, of halves]
  have l: "length (particles ?st) = 2" by (simp add: two_bodies_def)
  from t l have "particles (fst (setConfig ?cfg ?st halves))
      = [particles (fst (setConfig ?cfg ?st halves)) ! 0,
         particles (fst (setConfig ?cfg ?st halves)) ! 1]"
    by (intro list_of_two) simp
  moreover from t l have "particles (fst (setConfig ?cfg ?st halves)) ! 0
      = (body 0 10 100 100)\<lparr>color := ''hsla(200, 100%, 50%, 1.0)''\<rparr>"
    by (simp add: a c two_bodies_def)
  moreover from t l have "particles (fst (setConfig ?cfg ?st halves)) ! 1
      = (body 1 20 103 104)\<lparr>color := ''hsla(200, 100%, 50%, 1.0)''\<rparr>"
    by (simp add: a c two_bodies_def)
  ultimately show ?thesis using h1 h2 by simp
qed

text \<open>
  C8: \<open>setConfig\<close> initialises the store again exactly when the new particle count
  differs from the number of particles held, recolours when the count agrees and the
  palette differs, and otherwise only stores the configuration: the particles and the
  random source are untouched. Whenever the count agrees, every particle keeps its id,
  position, velocity, mass and radius. A change of \<open>G\<close> alone leaves the particles as
  they are.
\<close>

theorem setConfig_dispatch:
  "(real (length (particles st)) \<noteq> particleCount cfg \<longrightarrow>
      setConfig cfg st r = init (st\<lparr>config := cfg\<rparr>) r) \<and>
   (real (length (particles st)) = particleCount cfg \<and> palette (config st) \<noteq> palette cfg \<longrightarrow>
      setConfig cfg st r = refreshColors (st\<lparr>config := cfg\<rparr>) r) \<and>
   (real (length (particles st)) = particleCount cfg \<and> palette (config st) = palette cfg \<longrightarrow>
      setConfig cfg st r = (st\<lparr>config := cfg\<rparr>, r) \<and>
      particles (fst (setConfig cfg st r)) = particles st) \<and>
   (real (length (particles st)) = particleCount cfg \<longrightarrow>
      map kinematics (particles (fst (setConfig cfg st r))) = map kinematics (particles st)) \<and>
   (real (length (particles st)) = particleCount (config st) \<longrightarrow>
      setConfig ((config st)\<lparr>G := g\<rparr>) st r = (st\<lparr>config := (config st)\<lparr>G := g\<rparr>\<rparr>, r) \<and>
      particles (fst (setConfig ((config st)\<lparr>G := g\<rparr>) st r)) = particles st)"
  by (simp add: setConfig_def Let_def refreshColors_def split_beta recolor_loop_kinematics)

theorem setConfig_dispatch_witness:
  "real (length (particles (two_bodies default_config)))
     = particleCount (config (two_bodies default_config)) \<and>
   particles (fst (setConfig (default_config\<lparr>particleCount := 2, G := 5\<rparr>)
                      (two_bodies default_config) halves))
     = [body 0 10 100 100, body 1 20 103 104]"
  using setConfig_dispatch
    [of "two_bodies default_config"
        "default_config\<lparr>particleCount := 2, G := 5\<rparr>" halves 5]
  by (simp add: two_bodies_def default_config_def)

section \<open>The force loop reads the state before the step\<close>

lemma accelerate_kicked: "accelerate g i ps = ps[i := kicked g ps i]"
  by (simp add: accelerate_def kicked_def Let_def split_beta)

lemma pair_force_cong:
  assumes "p_x p = p_x p'" "p_y p = p_y p'" "mass p = mass p'"
    and "p_x q = p_x q'" "p_y q = p_y q'" "mass q = mass q'"
  shows "pair_force g p q = pair_force g p' q'"
  using assms by (simp add: pair_force_def)

lemma accumulate_cong:
  assumes len: "length qs = length ps"
    and same: "\<And>j. j < length ps \<Longrightarrow>
        p_x (qs ! j) = p_x (ps ! j) \<and> p_y (qs ! j) = p_y (ps ! j) \<and> mass (qs ! j) = mass (ps ! j)"
    and i: "i < length ps"
  shows "accumulate g qs i = accumulate g ps i"
  unfolding accumulate_def len
proof (rule fold_cong [OF refl refl])
  fix j assume "j \<in> set [0..<length ps]"
  then have j: "j < length ps" by simp
  have pf: "pair_force g (qs ! i) (qs ! j) = pair_force g (ps ! i) (ps ! j)"
    using same [OF i] same [OF j] by (intro pair_force_cong) simp_all
  show "(\<lambda>(fx, fy). if i = j then (fx, fy)
                 else case pair_force g (qs ! i) (qs ! j) of (cx, cy) \<Rightarrow> (fx + cx, fy + cy))
           = (\<lambda>(fx, fy). if i = j then (fx, fy)
                 else case pair_force g (ps ! i) (ps ! j) of (cx, cy) \<Rightarrow> (fx + cx, fy + cy))"
    unfolding pf ..
qed

lemma kicked_cong:
  "qs ! k = ps ! k \<Longrightarrow> accumulate g qs k = accumulate g ps k \<Longrightarrow>
   kicked g qs k = kicked g ps k"
  by (simp add: kicked_def)

lemma fold_accelerate:
  "k \<le> length ps \<Longrightarrow>
   fold (accelerate g) [0..<k] ps
     = map (\<lambda>i. if i < k then kicked g ps i else ps ! i) [0..<length ps]"
proof (induction k)
  case 0
  then show ?case by (simp add: map_nth)
next
  case (Suc k)
  let ?qs = "map (\<lambda>i. if i < k then kicked g ps i else ps ! i) [0..<length ps]"
  have k: "k < length ps" using Suc.prems by simp
  have qs: "fold (accelerate g) [0..<k] ps = ?qs"
    using Suc.IH k by simp
  have len: "length ?qs = length ps" by simp
  have qk: "?qs ! k = ps ! k" using k by simp
  have same: "p_x (?qs ! j) = p_x (ps ! j) \<and> p_y (?qs ! j) = p_y (ps ! j)
        \<and> mass (?qs ! j) = mass (ps ! j)" if "j < length ps" for j
    using that by (simp add: kicked_def)
  have acc: "accumulate g ?qs k = accumulate g ps k"
    by (rule accumulate_cong [OF len same k])
  have kk: "kicked g ?qs k = kicked g ps k"
    by (rule kicked_cong [OF qk acc])
  have "fold (accelerate g) [0..<Suc k] ps = accelerate g k ?qs"
    using qs by simp
  also have "\<dots> = ?qs[k := kicked g ps k]"
    by (simp only: accelerate_kicked kk)
  also have "\<dots> = map (\<lambda>i. if i < Suc k then kicked g ps i else ps ! i) [0..<length ps]"
    using k by (intro nth_equalityI) (auto simp: nth_list_update less_Suc_eq)
  finally show ?case .
qed

lemma force_loop_map:
  "force_loop g ps = map (kicked g ps) [0..<length ps]"
  unfolding force_loop_def by (simp add: fold_accelerate)

lemma step_nth:
  assumes "\<not> paused (config st)" and "i < length (particles st)"
  shows "particles (step st) ! i
     = move (1 - friction (config st)) (collisionElasticity (config st)) (width st) (height st)
         (kicked (G (config st)) (particles st) i)"
  using assms by (simp add: step_def Let_def force_loop_map)

lemma step_length: "length (particles (step st)) = length (particles st)"
  by (simp add: step_def Let_def force_loop_map)

lemma radius_kicked: "radius (kicked g ps i) = radius (ps ! i)"
  by (simp add: kicked_def)

lemma radius_move: "radius (move fr e w h p) = radius p"
  by (simp add: move_def bounce_x_def bounce_y_def Let_def)

lemma move_inside:
  assumes "2 * radius p \<le> w" and "2 * radius p \<le> h"
  shows "inside w h (move fr e w h p)"
  using assms by (simp add: inside_def move_def bounce_x_def bounce_y_def Let_def)

lemma sqrt_10_bounds: "3 < sqrt 10" "sqrt 10 < 4"
  by (rule real_less_rsqrt, simp) (rule real_less_lsqrt, simp_all)

lemma sqrt_20_bounds: "4 < sqrt 20" "sqrt 20 < 5"
  by (rule real_less_rsqrt, simp) (rule real_less_lsqrt, simp_all)

lemma sqrt_45_bounds: "6 < sqrt 45" "sqrt 45 < 7"
  by (rule real_less_rsqrt, simp) (rule real_less_lsqrt, simp_all)

lemma move_x:
  "p_x (move fr e w h p) =
     (if p_x p + vx p * fr < radius p then radius p
      else if p_x p + vx p * fr > w - radius p then w - radius p
      else p_x p + vx p * fr)"
  by (simp add: move_def bounce_x_def bounce_y_def Let_def)

lemma move_vx:
  "vx (move fr e w h p) =
     (if p_x p + vx p * fr < radius p then vx p * fr * (- e)
      else if p_x p + vx p * fr > w - radius p then vx p * fr * (- e)
      else vx p * fr)"
  by (simp add: move_def bounce_x_def bounce_y_def Let_def)

lemma move_y:
  "p_y (move fr e w h p) =
     (if p_y p + vy p * fr < radius p then radius p
      else if p_y p + vy p * fr > h - radius p then h - radius p
      else p_y p + vy p * fr)"
  by (simp add: move_def bounce_x_def bounce_y_def Let_def)

lemma move_vy:
  "vy (move fr e w h p) =
     (if p_y p + vy p * fr < radius p then vy p * fr * (- e)
      else if p_y p + vy p * fr > h - radius p then vy p * fr * (- e)
      else vy p * fr)"
  by (simp add: move_def bounce_x_def bounce_y_def Let_def)

lemma accumulate_single: "accumulate g [p] 0 = (0, 0)"
  by (simp add: accumulate_def)

lemma accumulate_two:
  "accumulate g [p1, p2] 0 = pair_force g p1 p2"
  "accumulate g [p1, p2] (Suc 0) = pair_force g p2 p1"
  by (simp_all add: accumulate_def split_beta)

section \<open>The walls\<close>

text \<open>
  C4, as the code has it: a step that is not paused leaves each particle whose own
  diameter fits into the domain inside the walls, \<open>radius \<le> x \<le> width - radius\<close> and
  \<open>radius \<le> y \<le> height - radius\<close>, whatever the other particles are; no step changes
  a radius, the number of particles or the domain; and a paused step changes nothing.
\<close>

theorem step_keeps_inside:
  "(\<not> paused (config st) \<longrightarrow>
      (\<forall>i < length (particles st).
          2 * radius (particles st ! i) \<le> width st \<and> 2 * radius (particles st ! i) \<le> height st
          \<longrightarrow> inside (width st) (height st) (particles (step st) ! i)))
   \<and> (\<forall>i < length (particles st). radius (particles (step st) ! i) = radius (particles st ! i))
   \<and> length (particles (step st)) = length (particles st)
   \<and> width (step st) = width st \<and> height (step st) = height st
   \<and> (paused (config st) \<longrightarrow> step st = st)"
proof -
  have fit: "inside (width st) (height st) (particles (step st) ! i)"
    if "\<not> paused (config st)" and "i < length (particles st)"
      and "2 * radius (particles st ! i) \<le> width st \<and> 2 * radius (particles st ! i) \<le> height st"
    for i
    using that by (simp add: step_nth move_inside radius_kicked)
  have rad: "radius (particles (step st) ! i) = radius (particles st ! i)"
    if "i < length (particles st)" for i
  proof (cases "paused (config st)")
    case True
    then show ?thesis by (simp add: step_def)
  next
    case False
    then show ?thesis using that by (simp add: step_nth radius_move radius_kicked)
  qed
  have dom: "width (step st) = width st" "height (step st) = height st"
    by (simp_all add: step_def Let_def)
  have stay: "step st = st" if "paused (config st)"
    using that by (simp add: step_def)
  show ?thesis
    using fit rad dom stay step_length by blast
qed

text \<open>
  In a domain of 4 by 4 the body of mass 10 fits and the body of mass 20 does not:
  the first is inside after the step.
\<close>

theorem step_keeps_inside_witness:
  "\<not> paused (config (updateDimensions 4 4 (two_bodies default_config))) \<and>
   0 < length (particles (updateDimensions 4 4 (two_bodies default_config))) \<and>
   2 * radius (particles (updateDimensions 4 4 (two_bodies default_config)) ! 0) \<le> 4 \<and>
   \<not> 2 * radius (particles (updateDimensions 4 4 (two_bodies default_config)) ! 1) \<le> 4 \<and>
   inside 4 4 (particles (step (updateDimensions 4 4 (two_bodies default_config))) ! 0) \<and>
   paused (config (two_bodies (default_config\<lparr>paused := True\<rparr>))) \<and>
   step (two_bodies (default_config\<lparr>paused := True\<rparr>))
     = two_bodies (default_config\<lparr>paused := True\<rparr>)"
proof -
  let ?st = "updateDimensions 4 4 (two_bodies default_config)"
  let ?pt = "two_bodies (default_config\<lparr>paused := True\<rparr>)"
  have wh: "width ?st = 4" "height ?st = 4"
    by (simp_all add: updateDimensions_def)
  have h1: "\<not> paused (config ?st)"
    by (simp add: updateDimensions_def two_bodies_def default_config_def)
  have h2: "0 < length (particles ?st)"
    by (simp add: updateDimensions_def two_bodies_def)
  have h3: "2 * radius (particles ?st ! 0) \<le> 4"
    using sqrt_10_bounds by (simp add: updateDimensions_def two_bodies_def body_def)
  have h4: "\<not> 2 * radius (particles ?st ! 1) \<le> 4"
    using sqrt_20_bounds by (simp add: updateDimensions_def two_bodies_def body_def)
  have h5: "paused (config ?pt)"
    by (simp add: two_bodies_def)
  have "inside 4 4 (particles (step ?st) ! 0)"
    using step_keeps_inside [of ?st] h1 h2 h3 unfolding wh by blast
  moreover have "step ?pt = ?pt"
    using step_keeps_inside [of ?pt] h5 by blast
  ultimately show ?thesis
    using h1 h2 h3 h4 h5 by blast
qed

lemma constructor_corner:
  "fst (constructor (corner_config p) 800 600 corner_draws)
     = \<lparr>particles = [body 0 10 0 0], config = corner_config p, width = 800, height = 600\<rparr>"
proof -
  have d: "digits 0 = ''0''" "digits 100 = ''100''" "digits 50 = ''50''"
    by code_simp+
  let ?st = "\<lparr>particles = [], config = corner_config p, width = 800, height = 600\<rparr>"
  have np: "fst (new_particle 0 ?st corner_draws) = body 0 10 0 0"
    by (simp add: new_particle_def random_def corner_draws_def corner_config_def
        default_config_def generateColor_def hsla_def show_int_def d body_def Let_def)
  have "init_loop 0 ?st corner_draws
      = init_loop (Suc 0) (?st\<lparr>particles := [fst (new_particle 0 ?st corner_draws)]\<rparr>)
          (snd (new_particle 0 ?st corner_draws))"
    by (subst init_loop.simps) (simp add: corner_config_def split_beta)
  also have "fst \<dots> = ?st\<lparr>particles := [body 0 10 0 0]\<rparr>"
    unfolding np by (subst init_loop.simps) (simp add: corner_config_def)
  finally show ?thesis
    by (simp add: constructor_def init_def)
qed

text \<open>
  A paused step leaves a particle where \<open>init\<close> has put it, also outside the walls; and
  in a domain resized to less than the diameter the clamp at the near wall puts the
  particle beyond the far one.
\<close>

theorem step_keeps_inside_counterexample:
  "p_x (particles (step (fst (constructor (corner_config True) 800 600 corner_draws))) ! 0)
     < radius (particles (step (fst (constructor (corner_config True) 800 600 corner_draws))) ! 0)
   \<and> p_x (particles (step (updateDimensions 1 1
                (fst (constructor (corner_config False) 800 600 corner_draws)))) ! 0)
     > width (step (updateDimensions 1 1
                (fst (constructor (corner_config False) 800 600 corner_draws))))
         - radius (particles (step (updateDimensions 1 1
                (fst (constructor (corner_config False) 800 600 corner_draws)))) ! 0)"
proof
  show "p_x (particles (step (fst (constructor (corner_config True) 800 600 corner_draws))) ! 0)
     < radius (particles (step (fst (constructor (corner_config True) 800 600 corner_draws))) ! 0)"
    unfolding constructor_corner
    by (simp add: step_def corner_config_def body_def)
next
  let ?p = "body 0 10 0 0"
  let ?r = "\<lparr>particles = [?p], config = corner_config False, width = 1, height = 1\<rparr>"
  have st: "updateDimensions 1 1 (fst (constructor (corner_config False) 800 600 corner_draws))
      = ?r"
    unfolding constructor_corner by (simp add: updateDimensions_def)
  have k: "kicked (G (config ?r)) (particles ?r) 0 = ?p"
    by (simp add: kicked_def accumulate_single body_def)
  have np: "\<not> paused (config ?r)"
    by (simp add: corner_config_def default_config_def)
  have m: "particles (step ?r) ! 0 = move (1 - 0.005) 0.7 1 1 ?p"
    using step_nth [OF np, of 0] k by (simp add: corner_config_def default_config_def)
  have w: "width (step ?r) = 1"
    by (simp add: step_def Let_def)
  have "p_x (particles (step ?r) ! 0) = sqrt 10 * 0.5"
    unfolding m by (simp add: move_x body_def)
  moreover have "radius (particles (step ?r) ! 0) = sqrt 10 * 0.5"
    unfolding m by (simp add: radius_move body_def)
  ultimately have "p_x (particles (step ?r) ! 0)
      > width (step ?r) - radius (particles (step ?r) ! 0)"
    using w sqrt_10_bounds by simp
  then show "p_x (particles (step (updateDimensions 1 1
                (fst (constructor (corner_config False) 800 600 corner_draws)))) ! 0)
     > width (step (updateDimensions 1 1
                (fst (constructor (corner_config False) 800 600 corner_draws))))
         - radius (particles (step (updateDimensions 1 1
                (fst (constructor (corner_config False) 800 600 corner_draws)))) ! 0)"
    unfolding st .
qed

text \<open>
  C9, as the code has it: a single particle of mass other than zero at
  \<open>x = radius - 1\<close> with \<open>vx = -2\<close>, elasticity 0.5 and friction below 1.5 is clamped to
  \<open>x = radius\<close> by one step, and its \<open>vx\<close> becomes \<open>1 - friction\<close>: that is \<open>+1\<close>
  when the friction is 0. The bounce alone, applied to that particle as it stands,
  gives \<open>x = radius\<close> and \<open>vx = +1\<close>.
\<close>

theorem single_particle_bounce:
  assumes "particles st = [p]"
    and "\<not> paused (config st)"
    and "mass p \<noteq> 0"
    and "p_x p = radius p - 1"
    and "vx p = - 2"
    and "collisionElasticity (config st) = 0.5"
    and "friction (config st) < 3 / 2"
  shows "p_x (particles (step st) ! 0) = radius p \<and>
         vx (particles (step st) ! 0) = 1 - friction (config st) \<and>
         p_x (bounce_x 0.5 (width st) p) = radius p \<and>
         vx (bounce_x 0.5 (width st) p) = 1"
proof -
  have b: "p_x (bounce_x 0.5 (width st) p) = radius p \<and> vx (bounce_x 0.5 (width st) p) = 1"
    using assms(4,5) by (simp add: bounce_x_def)
  have k: "kicked (G (config st)) (particles st) 0 = p"
    using assms(1) by (simp add: kicked_def accumulate_single)
  have "particles (step st) ! 0
      = move (1 - friction (config st)) 0.5 (width st) (height st) p"
    using step_nth [of st 0] assms(1,2,6) k by simp
  moreover have "p_x p + vx p * (1 - friction (config st)) < radius p"
    using assms(4,5,7) by simp
  ultimately have "p_x (particles (step st) ! 0) = radius p \<and>
      vx (particles (step st) ! 0) = 1 - friction (config st)"
    using assms(5) by (simp add: move_x move_vx field_simps)
  with b show ?thesis by simp
qed

theorem single_particle_bounce_witness:
  "particles (lone_body (default_config\<lparr>friction := 0, collisionElasticity := 0.5\<rparr>))
     = [(body 0 10 (sqrt 10 * 0.5 - 1) 100)\<lparr>vx := - 2\<rparr>] \<and>
   p_x (particles (step (lone_body (default_config\<lparr>friction := 0, collisionElasticity := 0.5\<rparr>))) ! 0)
     = sqrt 10 * 0.5 \<and>
   vx (particles (step (lone_body (default_config\<lparr>friction := 0, collisionElasticity := 0.5\<rparr>))) ! 0)
     = 1"
  using single_particle_bounce
    [of "lone_body (default_config\<lparr>friction := 0, collisionElasticity := 0.5\<rparr>)"
        "(body 0 10 (sqrt 10 * 0.5 - 1) 100)\<lparr>vx := - 2\<rparr>"]
  by (simp add: lone_body_def default_config_def body_def)

text \<open>With the friction 0.005 of the default configuration the velocity is 0.995.\<close>

theorem single_particle_bounce_counterexample:
  "vx (particles (step (lone_body (default_config\<lparr>collisionElasticity := 0.5\<rparr>))) ! 0) \<noteq> 1"
proof -
  let ?st = "lone_body (default_config\<lparr>collisionElasticity := 0.5\<rparr>)"
  let ?p = "(body 0 10 (sqrt 10 * 0.5 - 1) 100)\<lparr>vx := - 2\<rparr>"
  have k: "kicked (G (config ?st)) (particles ?st) 0 = ?p"
    by (simp add: lone_body_def kicked_def accumulate_single body_def)
  have "particles (step ?st) ! 0
      = move (1 - 0.005) 0.5 800 600 ?p"
    using step_nth [of ?st 0] k by (simp add: lone_body_def default_config_def)
  then have "vx (particles (step ?st) ! 0) = 0.995"
    by (simp add: move_vx body_def)
  then show ?thesis by simp
qed

section \<open>Two bodies\<close>

text \<open>
  C1, as the code has it: for masses 10 and 20 displaced by \<open>(3, 4)\<close> with \<open>G = 1\<close>
  the scalar force is \<open>200 / 45\<close>, and the force vector on the first particle is that
  scalar times \<open>(3, 4) / sqrt 45\<close>, the opposite vector on the second: it points
  along \<open>(3, 4) / 5\<close> and has the magnitude \<open>(200 / 45) * (5 / sqrt 45)\<close>. A step with
  friction 0 that meets no wall adds this vector divided by the mass to each velocity.
\<close>

theorem two_body_tick:
  assumes "particles st = [p1, p2]"
    and "mass p1 = 10" and "mass p2 = 20"
    and "p_x p2 - p_x p1 = 3" and "p_y p2 - p_y p1 = 4"
    and "G (config st) = 1" and "friction (config st) = 0" and "\<not> paused (config st)"
  shows "pair_force 1 p1 p2 = (200 / 45 * 3 / sqrt 45, 200 / 45 * 4 / sqrt 45) \<and>
         pair_force 1 p2 p1 = (- (200 / 45 * 3 / sqrt 45), - (200 / 45 * 4 / sqrt 45)) \<and>
         accumulate 1 (particles st) 0 = pair_force 1 p1 p2 \<and>
         accumulate 1 (particles st) 1 = pair_force 1 p2 p1 \<and>
         sqrt ((fst (pair_force 1 p1 p2))\<^sup>2 + (snd (pair_force 1 p1 p2))\<^sup>2)
           = 200 / 45 * (5 / sqrt 45) \<and>
         (inside (width st) (height st)
            (p1\<lparr>p_x := p_x p1 + (vx p1 + 200 / 45 * 3 / sqrt 45 / 10),
                p_y := p_y p1 + (vy p1 + 200 / 45 * 4 / sqrt 45 / 10)\<rparr>) \<longrightarrow>
          vx (particles (step st) ! 0) = vx p1 + 200 / 45 * 3 / sqrt 45 / 10 \<and>
          vy (particles (step st) ! 0) = vy p1 + 200 / 45 * 4 / sqrt 45 / 10) \<and>
         (inside (width st) (height st)
            (p2\<lparr>p_x := p_x p2 + (vx p2 - 200 / 45 * 3 / sqrt 45 / 20),
                p_y := p_y p2 + (vy p2 - 200 / 45 * 4 / sqrt 45 / 20)\<rparr>) \<longrightarrow>
          vx (particles (step st) ! 1) = vx p2 - 200 / 45 * 3 / sqrt 45 / 20 \<and>
          vy (particles (step st) ! 1) = vy p2 - 200 / 45 * 4 / sqrt 45 / 20)"
proof -
  have d: "p_x p1 - p_x p2 = - 3" "p_y p1 - p_y p2 = - 4"
    using assms(4,5) by simp_all
  have f12: "pair_force 1 p1 p2 = (200 / 45 * 3 / sqrt 45, 200 / 45 * 4 / sqrt 45)"
    using assms(2-5) by (simp add: pair_force_def Let_def softening_def)
  have f21: "pair_force 1 p2 p1 = (- (200 / 45 * 3 / sqrt 45), - (200 / 45 * 4 / sqrt 45))"
    using assms(2,3) d by (simp add: pair_force_def Let_def softening_def)
  have a0: "accumulate 1 (particles st) 0 = pair_force 1 p1 p2"
    and a1: "accumulate 1 (particles st) 1 = pair_force 1 p2 p1"
    using assms(1) by (simp_all add: accumulate_two)
  have "(200 / 45 * 3 / sqrt 45)\<^sup>2 + (200 / 45 * 4 / sqrt 45)\<^sup>2
      = (200 / 45 * (5 / sqrt 45))\<^sup>2"
    by (simp add: power2_eq_square field_simps)
  then have mag: "sqrt ((fst (pair_force 1 p1 p2))\<^sup>2 + (snd (pair_force 1 p1 p2))\<^sup>2)
      = 200 / 45 * (5 / sqrt 45)"
    unfolding f12 fst_conv snd_conv by (simp only: real_sqrt_abs) simp
  have k0: "kicked 1 (particles st) 0
      = p1\<lparr>vx := vx p1 + 200 / 45 * 3 / sqrt 45 / 10, vy := vy p1 + 200 / 45 * 4 / sqrt 45 / 10\<rparr>"
    unfolding kicked_def a0 f12 using assms(1,2) by simp
  have k1: "kicked 1 (particles st) 1
      = p2\<lparr>vx := vx p2 - 200 / 45 * 3 / sqrt 45 / 20, vy := vy p2 - 200 / 45 * 4 / sqrt 45 / 20\<rparr>"
    unfolding kicked_def a1 f21 using assms(1,3) by simp
  have s0: "particles (step st) ! 0
      = move 1 (collisionElasticity (config st)) (width st) (height st) (kicked 1 (particles st) 0)"
    using step_nth [OF assms(8), of 0] assms(1,6,7) by simp
  have s1: "particles (step st) ! 1
      = move 1 (collisionElasticity (config st)) (width st) (height st) (kicked 1 (particles st) 1)"
    using step_nth [OF assms(8), of 1] assms(1,6,7) by simp
  have v0: "inside (width st) (height st)
            (p1\<lparr>p_x := p_x p1 + (vx p1 + 200 / 45 * 3 / sqrt 45 / 10),
                p_y := p_y p1 + (vy p1 + 200 / 45 * 4 / sqrt 45 / 10)\<rparr>) \<longrightarrow>
          vx (particles (step st) ! 0) = vx p1 + 200 / 45 * 3 / sqrt 45 / 10 \<and>
          vy (particles (step st) ! 0) = vy p1 + 200 / 45 * 4 / sqrt 45 / 10"
    unfolding s0 k0 by (simp add: inside_def move_vx move_vy)
  have v1: "inside (width st) (height st)
            (p2\<lparr>p_x := p_x p2 + (vx p2 - 200 / 45 * 3 / sqrt 45 / 20),
                p_y := p_y p2 + (vy p2 - 200 / 45 * 4 / sqrt 45 / 20)\<rparr>) \<longrightarrow>
          vx (particles (step st) ! 1) = vx p2 - 200 / 45 * 3 / sqrt 45 / 20 \<and>
          vy (particles (step st) ! 1) = vy p2 - 200 / 45 * 4 / sqrt 45 / 20"
    unfolding s1 k1 by (simp add: inside_def move_vx move_vy)
  show ?thesis
    using f12 f21 a0 a1 mag v0 v1 by blast
qed

lemma kick_bounds:
  "0 < 200 / 45 * 3 / sqrt 45 / 10" "200 / 45 * 3 / sqrt 45 / 10 < 1"
  "0 < 200 / 45 * 4 / sqrt 45 / 10" "200 / 45 * 4 / sqrt 45 / 10 < 1"
  using sqrt_45_bounds by (simp_all add: field_simps)

lemma inside_after_kick:
  assumes "0 < a" "a < 1" "0 < b" "b < 1"
    and "radius p \<le> 3" "3 \<le> p_x p" "p_x p \<le> w - 4" "3 \<le> p_y p" "p_y p \<le> h - 4"
    and "vx p = 0" "vy p = 0"
  shows "inside w h (p\<lparr>p_x := p_x p + (vx p + a), p_y := p_y p + (vy p + b)\<rparr>)"
  using assms by (simp add: inside_def)

lemma two_bodies_inside:
  "inside 800 600
     ((body 0 10 100 100)
        \<lparr>p_x := p_x (body 0 10 100 100) + (vx (body 0 10 100 100) + 200 / 45 * 3 / sqrt 45 / 10),
         p_y := p_y (body 0 10 100 100) + (vy (body 0 10 100 100) + 200 / 45 * 4 / sqrt 45 / 10)\<rparr>)"
  by (rule inside_after_kick [OF kick_bounds])
     (use sqrt_10_bounds in \<open>simp_all add: body_def\<close>)

theorem two_body_tick_witness:
  "particles (two_bodies (default_config\<lparr>G := 1, friction := 0\<rparr>))
     = [body 0 10 100 100, body 1 20 103 104] \<and>
   accumulate 1 (particles (two_bodies (default_config\<lparr>G := 1, friction := 0\<rparr>))) 0
     = (200 / 45 * 3 / sqrt 45, 200 / 45 * 4 / sqrt 45) \<and>
   vx (particles (step (two_bodies (default_config\<lparr>G := 1, friction := 0\<rparr>))) ! 0)
     = 200 / 45 * 3 / sqrt 45 / 10 \<and>
   vy (particles (step (two_bodies (default_config\<lparr>G := 1, friction := 0\<rparr>))) ! 0)
     = 200 / 45 * 4 / sqrt 45 / 10"
proof -
  let ?st = "two_bodies (default_config\<lparr>G := 1, friction := 0\<rparr>)"
  have ps: "particles ?st = [body 0 10 100 100, body 1 20 103 104]"
    by (simp add: two_bodies_def)
  have wh: "width ?st = 800" "height ?st = 600"
    by (simp_all add: two_bodies_def)
  have v: "vx (body 0 10 100 100) = 0" "vy (body 0 10 100 100) = 0"
    by (simp_all add: body_def)
  note t = two_body_tick [of ?st "body 0 10 100 100" "body 1 20 103 104", unfolded wh]
  have "mass (body 0 10 100 100) = 10" "mass (body 1 20 103 104) = 20"
    "p_x (body 1 20 103 104) - p_x (body 0 10 100 100) = 3"
    "p_y (body 1 20 103 104) - p_y (body 0 10 100 100) = 4"
    "G (config ?st) = 1" "friction (config ?st) = 0" "\<not> paused (config ?st)"
    by (simp_all add: body_def two_bodies_def default_config_def)
  from t [OF ps this] two_bodies_inside ps v show ?thesis
    by simp
qed


lemma two_bodies_step_vx:
  assumes "G cfg = 1" and "friction cfg = 0" and "\<not> paused cfg"
  shows "vx (particles (step (two_bodies cfg)) ! 0) = 200 / 45 * 3 / sqrt 45 / 10"
proof -
  let ?p = "body 0 10 100 100"
  have a: "accumulate 1 (particles (two_bodies cfg)) 0
      = (200 / 45 * 3 / sqrt 45, 200 / 45 * 4 / sqrt 45)"
    by (simp add: two_bodies_def accumulate_two pair_force_def Let_def softening_def body_def)
  have k: "kicked 1 (particles (two_bodies cfg)) 0
      = ?p\<lparr>vx := vx ?p + 200 / 45 * 3 / sqrt 45 / 10, vy := vy ?p + 200 / 45 * 4 / sqrt 45 / 10\<rparr>"
    unfolding kicked_def a by (simp add: two_bodies_def body_def)
  have s: "particles (step (two_bodies cfg)) ! 0
      = move 1 (collisionElasticity cfg) 800 600 (kicked 1 (particles (two_bodies cfg)) 0)"
    using step_nth [of "two_bodies cfg" 0] assms by (simp add: two_bodies_def)
  have "radius ?p \<le> p_x ?p + (vx ?p + 200 / 45 * 3 / sqrt 45 / 10)"
    and "p_x ?p + (vx ?p + 200 / 45 * 3 / sqrt 45 / 10) \<le> 800 - radius ?p"
    using two_bodies_inside by (simp_all add: inside_def)
  moreover have "vx ?p = 0" by (simp add: body_def)
  ultimately show ?thesis
    unfolding s k by (simp add: move_vx)
qed

text \<open>
  The force vector of the code is shorter than \<open>1.0 * 10 * 20 / 45\<close>, and the velocity
  it gives to the first body in one step is not that magnitude along \<open>(3, 4) / 5\<close>
  divided by the mass.
\<close>

theorem two_body_tick_counterexample:
  "sqrt ((fst (accumulate 1 (particles (two_bodies (default_config\<lparr>G := 1, friction := 0\<rparr>))) 0))\<^sup>2
       + (snd (accumulate 1 (particles (two_bodies (default_config\<lparr>G := 1, friction := 0\<rparr>))) 0))\<^sup>2)
     \<noteq> 1.0 * 10 * 20 / 45
   \<and> vx (particles (step (two_bodies (default_config\<lparr>G := 1, friction := 0\<rparr>))) ! 0)
     \<noteq> 1.0 * 10 * 20 / 45 * (3 / 5) / 10"
proof
  let ?st = "two_bodies (default_config\<lparr>G := 1, friction := 0\<rparr>)"
  have a: "accumulate 1 (particles ?st) 0 = (200 / 45 * 3 / sqrt 45, 200 / 45 * 4 / sqrt 45)"
    by (simp add: two_bodies_def accumulate_two pair_force_def Let_def softening_def body_def)
  have "(200 / 45 * 3 / sqrt 45)\<^sup>2 + (200 / 45 * 4 / sqrt 45)\<^sup>2
      = (200 / 45 * (5 / sqrt 45))\<^sup>2"
    by (simp add: power2_eq_square field_simps)
  then have "sqrt ((200 / 45 * 3 / sqrt 45)\<^sup>2 + (200 / 45 * 4 / sqrt 45)\<^sup>2)
      = 200 / 45 * (5 / sqrt 45)"
    by (simp only: real_sqrt_abs) simp
  moreover have "200 / 45 * (5 / sqrt 45) < (200 / 45 :: real)"
    using sqrt_45_bounds by (simp add: field_simps)
  ultimately show "sqrt ((fst (accumulate 1 (particles ?st) 0))\<^sup>2
       + (snd (accumulate 1 (particles ?st) 0))\<^sup>2) \<noteq> 1.0 * 10 * 20 / 45"
    unfolding a fst_conv snd_conv by simp
next
  let ?st = "two_bodies (default_config\<lparr>G := 1, friction := 0\<rparr>)"
  have "vx (particles (step ?st) ! 0) = 200 / 45 * 3 / sqrt 45 / 10"
    by (rule two_bodies_step_vx) (simp_all add: default_config_def)
  moreover have "200 / 45 * 3 / sqrt 45 / 10 < (1.0 * 10 * 20 / 45 * (3 / 5) / 10 :: real)"
    using sqrt_45_bounds by (simp add: field_simps)
  ultimately show "vx (particles (step ?st) ! 0) \<noteq> 1.0 * 10 * 20 / 45 * (3 / 5) / 10"
    by linarith
qed

section \<open>The two strategies\<close>

text \<open>The buffer of the parallel engine has 1000 records, whatever the configuration.\<close>

lemma setup_fold_length:
  "length (fst (fold (\<lambda>i (buf, s). (buf @ [g s], h s)) [0..<n] (b0, r))) = length b0 + n"
  by (induction n) (simp_all add: split_beta)

lemma setupBuffers_capacity:
  "length (particleBuffer (fst (setupBuffers eng r))) = 1000"
  by (simp add: setupBuffers_def Let_def split_beta setup_fold_length del: upt_Suc)

text \<open>
  The compute shader accesses \<open>p.vy\<close> in lines 75 and 78; its module is not valid, and
  so \<open>render\<close> never changes the particle buffer.
\<close>

lemma undeclared_vy: "undeclared_accesses = [(75, ''vy''), (78, ''vy'')]"
  by (simp add: undeclared_accesses_def main_member_accesses_def Particle_members_def)

lemma module_invalid: "\<not> module_valid"
  by (simp add: module_valid_def undeclared_vy)

lemma render_keeps_buffer: "render device eng mouse = eng"
  by (simp add: render_def module_invalid)

text \<open>
  C2: on the same two bodies and the same configuration (\<open>G = 1\<close>, no friction, two
  particles, the mouse inactive) the step of the sequential engine gives the first body
  the velocity \<open>200 / 45 * 3 / sqrt 45 / 10\<close> on the x axis, and \<open>render\<close> of the parallel
  engine leaves it at rest, whatever a valid pipeline would compute.
\<close>

theorem strategies_diverge:
  "vx (particles (step (two_bodies (default_config\<lparr>G := 1, friction := 0\<rparr>))) ! 0)
     = 200 / 45 * 3 / sqrt 45 / 10
   \<and> fst (vel (particleBuffer
                (render device (gpu_two_bodies (default_config\<lparr>G := 1, friction := 0\<rparr>))
                   \<lparr>mouse_x = 0, mouse_y = 0, active = False\<rparr>) ! 0)) = 0
   \<and> vx (particles (step (two_bodies (default_config\<lparr>G := 1, friction := 0\<rparr>))) ! 0)
       \<noteq> fst (vel (particleBuffer
                (render device (gpu_two_bodies (default_config\<lparr>G := 1, friction := 0\<rparr>))
                   \<lparr>mouse_x = 0, mouse_y = 0, active = False\<rparr>) ! 0))"
proof -
  let ?cfg = "default_config\<lparr>G := 1, friction := 0\<rparr>"
  have cpu: "vx (particles (step (two_bodies ?cfg)) ! 0) = 200 / 45 * 3 / sqrt 45 / 10"
    by (rule two_bodies_step_vx) (simp_all add: default_config_def)
  have gpu: "fst (vel (particleBuffer
        (render device (gpu_two_bodies ?cfg) \<lparr>mouse_x = 0, mouse_y = 0, active = False\<rparr>) ! 0)) = 0"
    by (simp add: render_keeps_buffer gpu_two_bodies_def gpu_body_def)
  have "(0 :: real) < 200 / 45 * 3 / sqrt 45 / 10"
    by simp
  then show ?thesis
    unfolding cpu gpu by simp
qed


end
